theory Spec2Isabelle
  imports Complex_Main "HOL-Library.Signed_Division"
begin

section \<open>The QuantumSuperpositionDelay engine\<close>

text \<open>
  A shallow embedding of \<^verbatim>\<open>struct QuantumSuperpositionDelay\<close>
  (\<^verbatim>\<open>src/QuantumSuperpositionDelay.cpp\<close>).

  Conventions of the model:
  \<^item> a C++ \<^verbatim>\<open>float\<close> is a \<^typ>\<open>real\<close>: arithmetic is exact, rounding, infinities
    and NaN are not modelled;
  \<^item> a C++ \<^verbatim>\<open>int\<close> is an \<^typ>\<open>int\<close>; \<^verbatim>\<open>%\<close> is the truncating remainder
    \<open>smod\<close>, a cast \<^verbatim>\<open>(int)x\<close> truncates towards zero;
  \<^item> a fixed-size array is a function from the index to the element; the loop counters
    \<^verbatim>\<open>i\<close>, \<^verbatim>\<open>b\<close>, \<^verbatim>\<open>other\<close> range over \<open>[0..<NUM_BUFFERS]\<close>, a sample position is the
    \<^typ>\<open>int\<close> that the code computes;
  \<^item> the members, the two function-local \<^verbatim>\<open>static\<close> variables (\<^verbatim>\<open>peakCenter\<close>,
    \<^verbatim>\<open>controlDivider\<close>), the lights and the output port are fields of one record that
    every member function takes and returns;
  \<^item> the random generator is the sequence of the numbers it will return and the
    position of the next one, so that a test can fix the sequence;
  \<^item> a \<^verbatim>\<open>for\<close> loop over the buffers is a \<open>fold\<close> over \<open>[0..<NUM_BUFFERS]\<close> of
    its body.
\<close>

subsection \<open>Constants and helpers\<close>

definition NUM_BUFFERS :: nat where
  "NUM_BUFFERS = 6"

definition MAX_DELAY_SAMPLES :: int where
  "MAX_DELAY_SAMPLES = 96000"

definition BUFFER_SIZE :: int where
  "BUFFER_SIZE = MAX_DELAY_SAMPLES sdiv int NUM_BUFFERS"

text \<open>The light ids of \<^verbatim>\<open>enum LightId\<close>.\<close>

definition COLLAPSE_LIGHT :: nat where
  "COLLAPSE_LIGHT = 0"

definition BUFFER_LIGHT_1 :: nat where
  "BUFFER_LIGHT_1 = 1"

text \<open>
  Modelled from the spec: \<^verbatim>\<open>clamp(x, a, b)\<close> belongs to the host library's math header,
  which is not under \<^verbatim>\<open>src/\<close>. It bounds \<open>x\<close> to \<open>[a, b]\<close>; written as the host
  computes it, \<^verbatim>\<open>fmax(fmin(x, b), a)\<close>. Every call in the source has \<open>a \<le> b\<close>.
\<close>

definition clamp :: "real \<Rightarrow> real \<Rightarrow> real \<Rightarrow> real" where
  "clamp x a b = max (min x b) a"

text \<open>The conversion \<^verbatim>\<open>(int)x\<close> of a float: the fraction is dropped.\<close>

definition truncate_int :: "real \<Rightarrow> int" where
  "truncate_int x = (if 0 \<le> x then \<lfloor>x\<rfloor> else \<lceil>x\<rceil>)"

subsection \<open>The engine state and the ports\<close>

record engine =
  delayBuffers :: "nat \<Rightarrow> int \<Rightarrow> real"
  writeIndex :: int
  readIndices :: "nat \<Rightarrow> int"
  probWeights :: "nat \<Rightarrow> real"
  targetWeights :: "nat \<Rightarrow> real"
  weightVelocity :: "nat \<Rightarrow> real"
  delayTimes :: "nat \<Rightarrow> real"
  feedbackLevels :: "nat \<Rightarrow> real"
  entanglement :: "nat \<Rightarrow> real"
  baseDelayTime :: real
  spreadAmount :: real
  probabilityShape :: real
  globalFeedback :: real
  dryWetMix :: real
  chaosAmount :: real
  collapseTrigger :: bool
  collapseLight :: real
  rngSeq :: "nat \<Rightarrow> real"
  rngPos :: nat
  peakCenter :: real
  controlDivider :: int
  lights :: "nat \<Rightarrow> real"
  audioOutput :: real

text \<open>
  What the host presents to one call of \<^verbatim>\<open>process\<close>: the six parameters, the five
  input voltages and the sample rate of \<^verbatim>\<open>ProcessArgs\<close>.
\<close>

record ports =
  potTime :: real
  potSpread :: real
  potProb :: real
  potFeedback :: real
  potMix :: real
  potChaos :: real
  audioInput :: real
  cvProbInput :: real
  cvSpreadInput :: real
  cvFeedbackInput :: real
  collapseTriggerInput :: real
  sampleRate :: real

subsection \<open>Construction\<close>

definition initializeQuantumState :: "engine \<Rightarrow> engine" where
  "initializeQuantumState s =
     (let equalWeight = 1 / real NUM_BUFFERS in
      fold (\<lambda>i s. s\<lparr>probWeights := (probWeights s)(i := equalWeight),
                     targetWeights := (targetWeights s)(i := equalWeight),
                     weightVelocity := (weightVelocity s)(i := 0),
                     delayTimes := (delayTimes s)(i := 1000 + real i * 1500),
                     feedbackLevels := (feedbackLevels s)(i := 3 / 10),
                     entanglement := (entanglement s)(i := 0)\<rparr>)
        [0..<NUM_BUFFERS] s)"

text \<open>
  The engine after its constructor, for a generator that will return \<open>rs 0\<close>, \<open>rs 1\<close>,
  ...: the member initialisers, the zeroed buffers, \<^verbatim>\<open>initializeQuantumState\<close>. The
  trigger starts in the host library's initial state (high), the two statics at their
  initialisers.
\<close>

definition constructed :: "(nat \<Rightarrow> real) \<Rightarrow> engine" where
  "constructed rs =
     initializeQuantumState
       \<lparr>delayBuffers = (\<lambda>b i. 0), writeIndex = 0, readIndices = (\<lambda>b. 0),
        probWeights = (\<lambda>i. 0), targetWeights = (\<lambda>i. 0), weightVelocity = (\<lambda>i. 0),
        delayTimes = (\<lambda>i. 0), feedbackLevels = (\<lambda>i. 0), entanglement = (\<lambda>i. 0),
        baseDelayTime = 1 / 2, spreadAmount = 1 / 2, probabilityShape = 1 / 2,
        globalFeedback = 3 / 10, dryWetMix = 1 / 2, chaosAmount = 1 / 10,
        collapseTrigger = True, collapseLight = 0,
        rngSeq = rs, rngPos = 0, peakCenter = real NUM_BUFFERS / 2, controlDivider = 0,
        lights = (\<lambda>l. 0), audioOutput = 0\<rparr>"

definition fastRandom :: "engine \<Rightarrow> real \<times> engine" where
  "fastRandom s = (rngSeq s (rngPos s), s\<lparr>rngPos := Suc (rngPos s)\<rparr>)"

subsection \<open>Control-rate updates\<close>

definition updateControls :: "ports \<Rightarrow> engine \<Rightarrow> engine" where
  "updateControls p s =
     (let cvProb = cvProbInput p / 10;
          cvSpread = cvSpreadInput p / 10;
          cvFeedback = cvFeedbackInput p / 10
      in s\<lparr>baseDelayTime := clamp (potTime p) 0 1,
            spreadAmount := clamp (potSpread p + cvSpread) 0 1,
            probabilityShape := clamp (potProb p + cvProb) 0 1,
            globalFeedback := clamp (potFeedback p + cvFeedback) 0 (95 / 100),
            dryWetMix := potMix p,
            chaosAmount := potChaos p\<rparr>)"

text \<open>The two branches that fill the local array \<^verbatim>\<open>weights\<close>.\<close>

definition uniformBranch :: "engine \<Rightarrow> (nat \<Rightarrow> real)" where
  "uniformBranch s =
     (let uniformity = (1 / 2 - probabilityShape s) * 2 in
      fold (\<lambda>i w. w(i := (1 - uniformity) * targetWeights s i + uniformity / real NUM_BUFFERS))
        [0..<NUM_BUFFERS] (\<lambda>i. 0))"

definition peakedFill :: "real \<Rightarrow> real \<Rightarrow> (nat \<Rightarrow> real) \<times> real" where
  "peakedFill center peakedness =
     fold (\<lambda>i (w, totalWeight).
             let distance = \<bar>real i - center\<bar>;
                 wi = exp (- distance * peakedness * 2)
             in (w(i := wi), totalWeight + wi))
       [0..<NUM_BUFFERS] (\<lambda>i. 0, 0)"

definition peakedBranch :: "engine \<Rightarrow> (nat \<Rightarrow> real) \<times> engine" where
  "peakedBranch s =
     (let peakedness = (probabilityShape s - 1 / 2) * 2;
          (r, s1) = fastRandom s;
          pc = clamp (peakCenter s1 + (r - 1 / 2) * chaosAmount s1 * (1 / 2)) 0
                 (real (NUM_BUFFERS - 1));
          s2 = s1\<lparr>peakCenter := pc\<rparr>;
          (w, totalWeight) = peakedFill pc peakedness
      in (fold (\<lambda>i w. w(i := w i / totalWeight)) [0..<NUM_BUFFERS] w, s2))"

definition addChaos :: "(nat \<Rightarrow> real) \<times> engine \<Rightarrow> (nat \<Rightarrow> real) \<times> engine" where
  "addChaos =
     fold (\<lambda>i (w, s).
             let (r, s') = fastRandom s;
                 chaos = (r - 1 / 2) * chaosAmount s' * (1 / 10)
             in (w(i := clamp (w i + chaos) 0 1), s'))
       [0..<NUM_BUFFERS]"

definition weightSum :: "(nat \<Rightarrow> real) \<Rightarrow> real" where
  "weightSum w = fold (\<lambda>i acc. acc + w i) [0..<NUM_BUFFERS] 0"

definition storeTargets :: "(nat \<Rightarrow> real) \<Rightarrow> real \<Rightarrow> engine \<Rightarrow> engine" where
  "storeTargets w sumW =
     fold (\<lambda>i s. s\<lparr>targetWeights := (targetWeights s)(i := w i / sumW)\<rparr>) [0..<NUM_BUFFERS]"

definition smoothWeights :: "engine \<Rightarrow> engine" where
  "smoothWeights =
     fold (\<lambda>i s.
             let error = targetWeights s i - probWeights s i;
                 v = weightVelocity s i * (9 / 10) + error * (1 / 10)
             in s\<lparr>weightVelocity := (weightVelocity s)(i := v),
                   probWeights := (probWeights s)(i := probWeights s i + v * (5 / 100))\<rparr>)
       [0..<NUM_BUFFERS]"

text \<open>
  Lines 149 to 182: the local array \<^verbatim>\<open>weights\<close> after the branch on the shape and the
  chaos loop, with the engine as the draws have left it.
\<close>

definition shapeBranch :: "engine \<Rightarrow> (nat \<Rightarrow> real) \<times> engine" where
  "shapeBranch s = (if probabilityShape s < 1 / 2 then (uniformBranch s, s) else peakedBranch s)"

definition retarget :: "engine \<Rightarrow> (nat \<Rightarrow> real) \<times> engine" where
  "retarget s = addChaos (shapeBranch s)"

definition updateProbabilityWeights :: "engine \<Rightarrow> engine" where
  "updateProbabilityWeights s =
     (let (w, s2) = retarget s;
          sumW = weightSum w
      in smoothWeights (storeTargets w sumW s2))"

definition updateDelayTimes :: "real \<Rightarrow> engine \<Rightarrow> engine" where
  "updateDelayTimes sr s0 =
     (let minDelaySamples = 10;
          maxDelaySamples = clamp ((baseDelayTime s0 * 2000 / 1000) * sr) minDelaySamples
                              (real_of_int (BUFFER_SIZE - 1))
      in fold (\<lambda>i s.
                 let t = real i / real (NUM_BUFFERS - 1);
                     delayRange = (maxDelaySamples - minDelaySamples) * spreadAmount s;
                     d0 = minDelaySamples + t * delayRange;
                     (r, s') = fastRandom s;
                     d1 = d0 + (r - 1 / 2) * sr * (5 / 1000) * chaosAmount s';
                     d = clamp d1 1 (real_of_int (BUFFER_SIZE - 1));
                     delaySamples = truncate_int d
                 in s'\<lparr>delayTimes := (delayTimes s')(i := d),
                        readIndices := (readIndices s')
                          (i := (writeIndex s' - delaySamples + BUFFER_SIZE) smod BUFFER_SIZE)\<rparr>)
           [0..<NUM_BUFFERS] s0)"

subsection \<open>The collapse\<close>

definition handleQuantumCollapse :: "engine \<Rightarrow> engine" where
  "handleQuantumCollapse s0 =
     (let (r, s1) = fastRandom s0;
          dominantBuffer = truncate_int (r * real NUM_BUFFERS);
          collapseFactor = 7 / 10;
          s2 = fold (\<lambda>i s.
                 if int i = dominantBuffer
                 then s\<lparr>targetWeights := (targetWeights s)(i := collapseFactor)\<rparr>
                 else s\<lparr>targetWeights := (targetWeights s)
                          (i := (1 - collapseFactor) / real (NUM_BUFFERS - 1))\<rparr>)
               [0..<NUM_BUFFERS] s1
      in s2\<lparr>collapseLight := 1\<rparr>)"

text \<open>
  Modelled from the spec: \<^verbatim>\<open>dsp::SchmittTrigger\<close> belongs to the host library and is not
  under \<^verbatim>\<open>src/\<close>. \<^verbatim>\<open>process(in, low, high)\<close> detects a rising edge with hysteresis: a
  high trigger falls when the input is at or below the low threshold; a low trigger rises,
  and reports the edge, when the input is at or above the high one. The result is the
  report and the new trigger state.
\<close>

definition schmittProcess :: "bool \<Rightarrow> real \<Rightarrow> real \<Rightarrow> real \<Rightarrow> bool \<times> bool" where
  "schmittProcess st v low high =
     (if st then (False, \<not> (v \<le> low))
      else if v \<ge> high then (True, True) else (False, False))"

text \<open>Lines 247 to 250 of \<^verbatim>\<open>process\<close>: the trigger check.\<close>

definition collapseCheck :: "ports \<Rightarrow> engine \<Rightarrow> engine" where
  "collapseCheck p s =
     (let (fired, st) = schmittProcess (collapseTrigger s) (collapseTriggerInput p) (1 / 10) 2;
          s1 = s\<lparr>collapseTrigger := st\<rparr>
      in if fired then handleQuantumCollapse s1 else s1)"

subsection \<open>The per-sample step\<close>

text \<open>Lines 239 to 245 of \<^verbatim>\<open>process\<close>: the divide-by-64 gate in front of the updates.\<close>

definition controlTick :: "ports \<Rightarrow> engine \<Rightarrow> engine" where
  "controlTick p s =
     (let cd = controlDivider s + 1 in
      if cd \<ge> 64
      then updateDelayTimes (sampleRate p)
             (updateProbabilityWeights (updateControls p (s\<lparr>controlDivider := 0\<rparr>)))
      else s\<lparr>controlDivider := cd\<rparr>)"

definition decayLight :: "real \<Rightarrow> engine \<Rightarrow> engine" where
  "decayLight sr s =
     (let l = collapseLight s - collapseLight s / sr * 5
      in s\<lparr>collapseLight := l, lights := (lights s)(COLLAPSE_LIGHT := l)\<rparr>)"

definition writeInput :: "real \<Rightarrow> engine \<Rightarrow> engine" where
  "writeInput inputSample =
     fold (\<lambda>b s. s\<lparr>delayBuffers := (delayBuffers s)
                       (b := (delayBuffers s b)(writeIndex s := inputSample))\<rparr>)
       [0..<NUM_BUFFERS]"

text \<open>The inner loop over \<^verbatim>\<open>other\<close>: the feedback of buffer \<open>b\<close> leaks into the others.\<close>

definition entangle :: "nat \<Rightarrow> real \<Rightarrow> engine \<Rightarrow> engine" where
  "entangle b feedbackSample =
     fold (\<lambda>other s.
             if other \<noteq> b
             then (let entanglementAmount = entanglement s b * (1 / 10);
                       entangleIndex = (writeIndex s + 10) smod BUFFER_SIZE
                   in s\<lparr>delayBuffers := (delayBuffers s)
                         (other := (delayBuffers s other)
                            (entangleIndex := delayBuffers s other entangleIndex
                                                + feedbackSample * entanglementAmount))\<rparr>)
             else s)
       [0..<NUM_BUFFERS]"

text \<open>The body of the loop over \<^verbatim>\<open>b\<close>, on the accumulator and the engine.\<close>

definition bufferStep :: "nat \<Rightarrow> real \<times> engine \<Rightarrow> real \<times> engine" where
  "bufferStep b = (\<lambda>(outputAccumulator, s).
     let readIdx = readIndices s b;
         frac = delayTimes s b - real_of_int (truncate_int (delayTimes s b));
         readIdxNext = (readIdx + 1) smod BUFFER_SIZE;
         delayedSample = delayBuffers s b readIdx * (1 - frac)
                           + delayBuffers s b readIdxNext * frac;
         weightedSample = delayedSample * probWeights s b;
         feedbackSample = delayedSample * globalFeedback s * feedbackLevels s b;
         s1 = entangle b feedbackSample s;
         s2 = s1\<lparr>delayBuffers := (delayBuffers s1)
                  (b := (delayBuffers s1 b)
                     (writeIndex s1 := delayBuffers s1 b (writeIndex s1) + feedbackSample))\<rparr>;
         energy = \<bar>delayedSample\<bar> / 10;
         s3 = s2\<lparr>entanglement := (entanglement s2)
                  (b := entanglement s2 b * (99 / 100) + energy * (1 / 100))\<rparr>
     in (outputAccumulator + weightedSample,
         s3\<lparr>lights := (lights s3)(BUFFER_LIGHT_1 + b := probWeights s3 b)\<rparr>))"

text \<open>The loop over \<^verbatim>\<open>b\<close>, from \<^verbatim>\<open>outputAccumulator = 0.f\<close>.\<close>

definition readBuffers :: "engine \<Rightarrow> real \<times> engine" where
  "readBuffers s = fold bufferStep [0..<NUM_BUFFERS] (0, s)"

text \<open>Lines 256 to 311: write, read and feed back, mix, advance.\<close>

definition audioStep :: "ports \<Rightarrow> engine \<Rightarrow> engine" where
  "audioStep p s =
     (let inputSample = audioInput p;
          s1 = writeInput inputSample s;
          (outputAccumulator, s2) = readBuffers s1;
          wetSample = clamp outputAccumulator (- 10) 10;
          mixedOutput = inputSample * (1 - dryWetMix s2) + wetSample * dryWetMix s2
      in s2\<lparr>audioOutput := mixedOutput,
             writeIndex := (writeIndex s2 + 1) smod BUFFER_SIZE\<rparr>)"

text \<open>Lines 238 to 254: the gate, the trigger check and the decay of the indicator.\<close>

definition controlStep :: "ports \<Rightarrow> engine \<Rightarrow> engine" where
  "controlStep p s = decayLight (sampleRate p) (collapseCheck p (controlTick p s))"

definition process :: "ports \<Rightarrow> engine \<Rightarrow> engine" where
  "process p s = audioStep p (controlStep p s)"

subsection \<open>Persistence\<close>

text \<open>
  The JSON library is not under \<^verbatim>\<open>src/\<close> either. Its values and the three accessors
  that \<^verbatim>\<open>dataFromJson\<close> calls are modelled from the library's documentation:
  \<^verbatim>\<open>json_object_get\<close> and \<^verbatim>\<open>json_array_get\<close> return a null pointer (\<open>None\<close>)
  when the value is not an object (not an array), the key is absent or the index is past
  the end; \<^verbatim>\<open>json_real_value\<close> returns 0 for a value that is not a real. An object is the
  list of its members, an array the list of its elements.
\<close>

datatype json =
    JNull
  | JBool bool
  | JInteger int
  | JReal real
  | JString string
  | JArray "json list"
  | JObject "(string \<times> json) list"

fun json_object_get :: "json \<Rightarrow> string \<Rightarrow> json option" where
  "json_object_get (JObject kvs) key = map_of kvs key"
| "json_object_get _ key = None"

fun json_array_get :: "json \<Rightarrow> nat \<Rightarrow> json option" where
  "json_array_get (JArray xs) i = (if i < length xs then Some (xs ! i) else None)"
| "json_array_get _ i = None"

fun json_real_value :: "json \<Rightarrow> real" where
  "json_real_value (JReal x) = x"
| "json_real_value _ = 0"

definition dataToJson :: "engine \<Rightarrow> json" where
  "dataToJson s =
     (let weightsJ = fold (\<lambda>i xs. xs @ [JReal (probWeights s i)]) [0..<NUM_BUFFERS] []
      in JObject [(''probWeights'', JArray weightsJ)])"

definition dataFromJson :: "json \<Rightarrow> engine \<Rightarrow> engine" where
  "dataFromJson rootJ s0 =
     (case json_object_get rootJ ''probWeights'' of
        None \<Rightarrow> s0
      | Some weightsJ \<Rightarrow>
          fold (\<lambda>i s.
                  case json_array_get weightsJ i of
                    None \<Rightarrow> s
                  | Some weightJ \<Rightarrow>
                      (let s1 = s\<lparr>probWeights := (probWeights s)(i := json_real_value weightJ)\<rparr>
                       in s1\<lparr>targetWeights := (targetWeights s1)(i := probWeights s1 i)\<rparr>))
            [0..<NUM_BUFFERS] s0)"

subsection \<open>Predicates and test inputs\<close>

text \<open>
  The fields that lines 256 to 311 of \<^verbatim>\<open>process\<close> never assign: everything but the
  buffers, the entanglement, the lights, the output and the write index.
\<close>

definition audioFrame :: "engine \<Rightarrow>
    (nat \<Rightarrow> real) \<times> (nat \<Rightarrow> real) \<times> (nat \<Rightarrow> real) \<times> (nat \<Rightarrow> real) \<times> (nat \<Rightarrow> int) \<times>
    (nat \<Rightarrow> real) \<times> (real \<times> real \<times> real \<times> real \<times> real \<times> real) \<times>
    (bool \<times> real \<times> int) \<times> ((nat \<Rightarrow> real) \<times> nat \<times> real)" where
  "audioFrame s =
     (probWeights s, targetWeights s, weightVelocity s, delayTimes s, readIndices s,
      feedbackLevels s,
      (baseDelayTime s, spreadAmount s, probabilityShape s, globalFeedback s, dryWetMix s,
       chaosAmount s),
      (collapseTrigger s, collapseLight s, controlDivider s),
      (rngSeq s, rngPos s, peakCenter s))"

text \<open>
  The weight vectors are normalized: the targets are non-negative and sum to 1, the
  current weights sum to 1, the velocities sum to 0.
\<close>

definition normalized :: "engine \<Rightarrow> bool" where
  "normalized s \<longleftrightarrow>
     list_all (\<lambda>i. 0 \<le> targetWeights s i) [0..<NUM_BUFFERS]
     \<and> (\<Sum>i<NUM_BUFFERS. targetWeights s i) = 1
     \<and> (\<Sum>i<NUM_BUFFERS. probWeights s i) = 1
     \<and> (\<Sum>i<NUM_BUFFERS. weightVelocity s i) = 0"

text \<open>A generator that always returns 0, and the engine constructed on it.\<close>

definition zeroDraws :: "nat \<Rightarrow> real" where
  "zeroDraws = (\<lambda>n. 0)"

definition freshEngine :: engine where
  "freshEngine = constructed zeroDraws"

text \<open>
  The ports of the scenario of the specification: a constant input of 5, the controls at
  their defaults, no modulation, no trigger, 48 kHz.
\<close>

definition scenarioPorts :: ports where
  "scenarioPorts =
     \<lparr>potTime = 1 / 4, potSpread = 1 / 2, potProb = 1 / 2, potFeedback = 3 / 10,
      potMix = 1 / 2, potChaos = 1 / 10, audioInput = 5, cvProbInput = 0,
      cvSpreadInput = 0, cvFeedbackInput = 0, collapseTriggerInput = 0,
      sampleRate = 48000\<rparr>"

text \<open>
  The delay length of buffer \<open>i\<close> as the specification words it, for the comparison
  with \<^verbatim>\<open>updateDelayTimes\<close>: \<open>maxSamples\<close> is the base-delay control mapped through
  0 to 2000 ms at the sample rate, \<open>minSamples\<close> is 10, \<open>r\<close> is the random draw.
\<close>

definition specDelayTime :: "real \<Rightarrow> real \<Rightarrow> real \<Rightarrow> real \<Rightarrow> real \<Rightarrow> nat \<Rightarrow> real" where
  "specDelayTime base spread chaos sr r i =
     (let minSamples = 10;
          maxSamples = base * 2000 / 1000 * sr;
          t = real i / real (NUM_BUFFERS - 1);
          delayTime = minSamples + t * (maxSamples - minSamples) * spread;
          jitter = (r - 1 / 2) * sr * (5 / 1000) * chaos
      in clamp (delayTime + jitter) 1 (real_of_int (BUFFER_SIZE - 1)))"

text \<open>
  The engine states that exist: the constructed engine, and what \<^verbatim>\<open>process\<close> and
  \<^verbatim>\<open>dataFromJson\<close> make of one.
\<close>

inductive reachable :: "engine \<Rightarrow> bool" where
  reachable_constructed: "reachable (constructed rs)"
| reachable_process: "reachable s \<Longrightarrow> reachable (process p s)"
| reachable_dataFromJson: "reachable s \<Longrightarrow> reachable (dataFromJson rootJ s)"

text \<open>
  A fresh engine whose shape control has been read at 0.49 and whose chaos control at 1,
  after one collapse.
\<close>

definition collapsedEngine :: engine where
  "collapsedEngine =
     handleQuantumCollapse
       (updateControls (scenarioPorts\<lparr>potProb := 49 / 100, potChaos := 1\<rparr>) freshEngine)"

text \<open>
  One pass of the smoothing loop on an entry whose target is 0, \<open>v' = 0.9 v - 0.1 c\<close> and
  \<open>c' = c + 0.05 v'\<close>, on the velocity and the weight multiplied by 200 at each pass:
  this keeps the numbers whole when many passes are evaluated.
\<close>

fun relaxScaled :: "real \<times> real \<Rightarrow> real \<times> real" where
  "relaxScaled (a, b) = (180 * a - 20 * b, 9 * a + 199 * b)"

text \<open>A persisted state whose weight vector holds the same weight \<open>x\<close> six times.\<close>

definition constantVector :: "real \<Rightarrow> json" where
  "constantVector x = JObject [(''probWeights'', JArray (replicate NUM_BUFFERS (JReal x)))]"

text \<open>
  A fresh engine that has imported a weight vector of six zeros and then read a shape of
  0.49 and a chaos of 1: the engine at the first control tick after such a load.
\<close>

definition zeroedEngine :: engine where
  "zeroedEngine =
     updateControls (scenarioPorts\<lparr>potProb := 49 / 100, potChaos := 1\<rparr>)
       (dataFromJson (constantVector 0) freshEngine)"

text \<open>
  A fresh engine that has imported a weight vector of six ones and then read a shape of 0
  and a chaos of 0; and that engine after one weight update and the import of the
  uniform vector, six times 1/6.
\<close>

definition onesEngine :: engine where
  "onesEngine =
     updateControls (scenarioPorts\<lparr>potProb := 0, potChaos := 0\<rparr>)
       (dataFromJson (constantVector 1) freshEngine)"

definition reloadedEngine :: engine where
  "reloadedEngine = dataFromJson (constantVector (1 / 6)) (updateProbabilityWeights onesEngine)"

text \<open>The scenario ports with the spread control fully open and no chaos.\<close>

definition widePorts :: ports where
  "widePorts = scenarioPorts\<lparr>potSpread := 1, potChaos := 0\<rparr>"

text \<open>The scenario ports with 5 V on each of the three modulation inputs.\<close>

definition modulatedPorts :: ports where
  "modulatedPorts =
     scenarioPorts\<lparr>cvProbInput := 5, cvSpreadInput := 5, cvFeedbackInput := 5\<rparr>"

section \<open>Loops in closed form\<close>

lemma fold_keeps:
  assumes "\<And>i x. g (f i x) = g x"
  shows "g (fold f xs x) = g x"
  using assms by (induction xs arbitrary: x) simp_all

lemma fold_upt_Suc: "fold f [0..<Suc n] x = f n (fold f [0..<n] x)"
  by simp

lemma audioFrame_entangle: "audioFrame (entangle b f s) = audioFrame s"
  unfolding entangle_def
  by (rule fold_keeps) (simp add: audioFrame_def Let_def)

lemma audioFrame_bufferStep: "audioFrame (snd (bufferStep b x)) = audioFrame (snd x)"
proof -
  have "audioFrame (entangle b f s) = audioFrame s" for f s
    by (rule audioFrame_entangle)
  then show ?thesis
    by (simp add: bufferStep_def split_def Let_def audioFrame_def)
qed

lemma audioFrame_writeInput: "audioFrame (writeInput v s) = audioFrame s"
  unfolding writeInput_def
  by (rule fold_keeps) (simp add: audioFrame_def)

lemma audioFrame_readBuffers: "audioFrame (snd (readBuffers s)) = audioFrame s"
proof -
  have "audioFrame (snd (fold bufferStep xs x)) = audioFrame (snd x)" for xs x
    by (rule fold_keeps [where g = "\<lambda>x. audioFrame (snd x)"]) (rule audioFrame_bufferStep)
  then show ?thesis by (simp add: readBuffers_def)
qed

lemma audioFrame_audioStep: "audioFrame (audioStep p s) = audioFrame s"
proof -
  have "audioFrame (audioStep p s)
          = audioFrame (snd (readBuffers (writeInput (audioInput p) s)))"
    by (simp add: audioStep_def split_def Let_def audioFrame_def)
  also have "\<dots> = audioFrame s"
    by (simp add: audioFrame_readBuffers audioFrame_writeInput)
  finally show ?thesis .
qed

lemmas audioStep_keeps = audioFrame_audioStep [unfolded audioFrame_def prod.inject]

lemma clamp_bounds: "a \<le> b \<Longrightarrow> a \<le> clamp x a b \<and> clamp x a b \<le> b"
  by (simp add: clamp_def)

lemma convex_blend_bounded:
  fixes x w m :: real
  assumes "- c \<le> x" "x \<le> c" "- c \<le> w" "w \<le> c" "0 \<le> m" "m \<le> 1"
  shows "- c \<le> x * (1 - m) + w * m \<and> x * (1 - m) + w * m \<le> c"
proof -
  have a1: "x * (1 - m) \<le> c * (1 - m)"
    using assms by (intro mult_right_mono) auto
  have a2: "(- c) * (1 - m) \<le> x * (1 - m)"
    using assms by (intro mult_right_mono) auto
  have b1: "w * m \<le> c * m"
    using assms by (intro mult_right_mono) auto
  have b2: "(- c) * m \<le> w * m"
    using assms by (intro mult_right_mono) auto
  have "c * (1 - m) + c * m = c" "(- c) * (1 - m) + (- c) * m = - c"
    by (simp_all add: algebra_simps)
  with a1 a2 b1 b2 show ?thesis by linarith
qed

lemma audioStep_output:
  "audioOutput (audioStep p s)
     = audioInput p * (1 - dryWetMix s)
       + clamp (fst (readBuffers (writeInput (audioInput p) s))) (- 10) 10 * dryWetMix s"
proof -
  have "dryWetMix (snd (readBuffers (writeInput (audioInput p) s))) = dryWetMix s"
    using audioFrame_readBuffers [of "writeInput (audioInput p) s"]
      audioFrame_writeInput [of "audioInput p" s]
    by (simp add: audioFrame_def)
  then show ?thesis
    by (simp add: audioStep_def split_def Let_def)
qed

lemma fold_fun_upd:
  "fold (\<lambda>i w. w(i := f i (w i))) [0..<n] w = (\<lambda>i. if i < n then f i (w i) else w i)"
  by (induction n) (auto simp: fun_eq_iff)

lemma fold_fun_set:
  "fold (\<lambda>i w. w(i := g i)) [0..<n] w = (\<lambda>i. if i < n then g i else w i)"
  by (induction n) (auto simp: fun_eq_iff)

lemma fold_add: "fold (\<lambda>i acc. acc + w i) [0..<n] (a::real) = a + (\<Sum>i<n. w i)"
  by (induction n) simp_all

lemma weightSum_eq: "weightSum w = (\<Sum>i<NUM_BUFFERS. w i)"
  by (simp add: weightSum_def fold_add)

lemma uniformBranch_closed:
  "uniformBranch s =
     (\<lambda>i. if i < NUM_BUFFERS
          then (1 - (1 / 2 - probabilityShape s) * 2) * targetWeights s i
                 + (1 / 2 - probabilityShape s) * 2 / real NUM_BUFFERS
          else 0)"
  unfolding uniformBranch_def Let_def fold_fun_set ..

lemma peakedFill_loop:
  "fold (\<lambda>i (w, totalWeight).
             let distance = \<bar>real i - center\<bar>;
                 wi = exp (- distance * peakedness * 2)
             in (w(i := wi), totalWeight + wi))
       [0..<n] (w, a)
   = ((\<lambda>i. if i < n then exp (- \<bar>real i - center\<bar> * peakedness * 2) else w i),
      a + (\<Sum>i<n. exp (- \<bar>real i - center\<bar> * peakedness * 2)))"
  by (induction n) (auto simp: fun_eq_iff Let_def)

lemma peakedFill_closed:
  "peakedFill c k =
     ((\<lambda>i. if i < NUM_BUFFERS then exp (- \<bar>real i - c\<bar> * k * 2) else 0),
      (\<Sum>i<NUM_BUFFERS. exp (- \<bar>real i - c\<bar> * k * 2)))"
  unfolding peakedFill_def peakedFill_loop by simp

lemma peakedFill_total_pos: "0 < snd (peakedFill c k)"
  unfolding peakedFill_closed snd_conv
  by (rule sum_pos) (simp_all add: NUM_BUFFERS_def lessThan_empty_iff)

lemma peakedBranch_closed:
  "peakedBranch s =
     (let pc = clamp (peakCenter s + (rngSeq s (rngPos s) - 1 / 2) * chaosAmount s * (1 / 2)) 0
                 (real (NUM_BUFFERS - 1));
          k = (probabilityShape s - 1 / 2) * 2
      in ((\<lambda>i. if i < NUM_BUFFERS
                then exp (- \<bar>real i - pc\<bar> * k * 2) / snd (peakedFill pc k) else 0),
          s\<lparr>rngPos := Suc (rngPos s), peakCenter := pc\<rparr>))"
proof -
  have "fold (\<lambda>i w. w(i := w i / t)) [0..<NUM_BUFFERS] w
          = (\<lambda>i. if i < NUM_BUFFERS then w i / t else w i)" for w :: "nat \<Rightarrow> real" and t
    by (rule fold_fun_upd [where f = "\<lambda>i x. x / t"])
  then show ?thesis
    by (simp add: peakedBranch_def Let_def fastRandom_def split_def peakedFill_closed fun_eq_iff)
qed

lemma addChaos_loop:
  "fold (\<lambda>i (w, s).
             let (r, s') = fastRandom s;
                 chaos = (r - 1 / 2) * chaosAmount s' * (1 / 10)
             in (w(i := clamp (w i + chaos) 0 1), s'))
       [0..<n] (w, s)
   = ((\<lambda>i. if i < n then clamp (w i + (rngSeq s (rngPos s + i) - 1 / 2) * chaosAmount s * (1 / 10)) 0 1 else w i),
      s\<lparr>rngPos := rngPos s + n\<rparr>)"
proof (induction n)
  case 0
  show ?case by simp
next
  case (Suc n)
  show ?case unfolding fold_upt_Suc Suc
    by (simp add: Let_def fastRandom_def fun_eq_iff)
qed

lemma addChaos_closed:
  "addChaos (w, s) =
     ((\<lambda>i. if i < NUM_BUFFERS
           then clamp (w i + (rngSeq s (rngPos s + i) - 1 / 2) * chaosAmount s * (1 / 10)) 0 1
           else w i),
      s\<lparr>rngPos := rngPos s + NUM_BUFFERS\<rparr>)"
  unfolding addChaos_def by (rule addChaos_loop)

text \<open>The weights of the peaked branch.\<close>

lemma peaked_weights:
  fixes e :: "nat \<Rightarrow> real"
  assumes "\<And>i. i < n \<Longrightarrow> 0 < e i" "0 < n"
  shows "\<And>i. i < n \<Longrightarrow> 0 \<le> e i / (\<Sum>j<n. e j)"
    and "(\<Sum>i<n. e i / (\<Sum>j<n. e j)) = 1"
proof -
  have pos: "0 < (\<Sum>j<n. e j)"
    using assms by (intro sum_pos) (auto simp: lessThan_empty_iff)
  show "0 \<le> e i / (\<Sum>j<n. e j)" if "i < n" for i
    using assms(1) [OF that] pos by simp
  have "(\<Sum>i<n. e i / (\<Sum>j<n. e j)) = (\<Sum>i<n. e i) / (\<Sum>j<n. e j)"
    by (rule sum_divide_distrib [symmetric])
  also have "\<dots> = 1" using pos by simp
  finally show "(\<Sum>i<n. e i / (\<Sum>j<n. e j)) = 1" .
qed

text \<open>Some entry of a distribution over \<open>n\<close> points is at least \<open>1 / n\<close>.\<close>

lemma some_weight_large:
  fixes w :: "nat \<Rightarrow> real"
  assumes "(\<Sum>i<n. w i) = 1" "0 < n"
  shows "\<exists>i<n. 1 / real n \<le> w i"
proof (rule ccontr)
  assume "\<not> (\<exists>i<n. 1 / real n \<le> w i)"
  then have lt: "\<And>i. i \<in> {..<n} \<Longrightarrow> w i < 1 / real n" by auto
  have "(\<Sum>i<n. w i) < (\<Sum>i<n. 1 / real n)"
    using assms(2) lt by (intro sum_strict_mono) (auto simp: lessThan_empty_iff)
  also have "\<dots> = 1" using assms(2) by simp
  finally show False using assms(1) by simp
qed

lemma chaos_sum_pos:
  fixes w z :: "nat \<Rightarrow> real"
  assumes one: "(\<Sum>i<n. w i) = 1"
    and n: "0 < n" "n \<le> 19"
    and z: "\<And>i. i < n \<Longrightarrow> - (1 / 20) \<le> z i"
  shows "0 < (\<Sum>i<n. clamp (w i + z i) 0 1)"
proof -
  obtain k where k: "k < n" "1 / real n \<le> w k"
    using some_weight_large [OF one n(1)] by blast
  have "(1::real) / 19 \<le> 1 / real n"
    using n by (intro divide_left_mono) auto
  with k(2) z [OF k(1)] have "0 < w k + z k" by linarith
  then have pos: "0 < clamp (w k + z k) 0 1"
    by (simp add: clamp_def)
  have ge: "\<And>i. 0 \<le> clamp (w i + z i) 0 1"
    by (simp add: clamp_def)
  have "clamp (w k + z k) 0 1 \<le> (\<Sum>i<n. clamp (w i + z i) 0 1)"
    using k(1) ge by (intro member_le_sum) auto
  with pos show ?thesis by linarith
qed

lemma chaos_noise_bound:
  fixes r c :: real
  assumes "0 \<le> r" "0 \<le> c" "c \<le> 1"
  shows "- (1 / 20) \<le> (r - 1 / 2) * c * (1 / 10)"
proof -
  have "- (1 / 2) * c \<le> (r - 1 / 2) * c"
    using assms by (intro mult_right_mono) auto
  moreover have "- (1 / 2) \<le> - (1 / 2) * c"
    using assms by simp
  ultimately show ?thesis by simp
qed

lemma storeTargets_closed:
  "storeTargets w c s
     = s\<lparr>targetWeights := (\<lambda>i. if i < NUM_BUFFERS then w i / c else targetWeights s i)\<rparr>"
proof -
  have "fold (\<lambda>i s. s\<lparr>targetWeights := (targetWeights s)(i := w i / c)\<rparr>) [0..<n] s
     = s\<lparr>targetWeights := (\<lambda>i. if i < n then w i / c else targetWeights s i)\<rparr>" for n
  proof (induction n)
    case 0
    show ?case by simp
  next
    case (Suc n)
    show ?case unfolding fold_upt_Suc Suc
      by (rule engine.equality) (simp_all add: fun_eq_iff)
  qed
  then show ?thesis by (simp add: storeTargets_def)
qed

lemma smoothWeights_closed:
  "smoothWeights s
   = s\<lparr>weightVelocity := (\<lambda>i. if i < NUM_BUFFERS
            then weightVelocity s i * (9 / 10) + (targetWeights s i - probWeights s i) * (1 / 10)
            else weightVelocity s i),
       probWeights := (\<lambda>i. if i < NUM_BUFFERS
            then probWeights s i
                   + (weightVelocity s i * (9 / 10)
                        + (targetWeights s i - probWeights s i) * (1 / 10)) * (5 / 100)
            else probWeights s i)\<rparr>"
proof -
  have "fold (\<lambda>i s.
             let error = targetWeights s i - probWeights s i;
                 v = weightVelocity s i * (9 / 10) + error * (1 / 10)
             in s\<lparr>weightVelocity := (weightVelocity s)(i := v),
                   probWeights := (probWeights s)(i := probWeights s i + v * (5 / 100))\<rparr>)
       [0..<n] s
   = s\<lparr>weightVelocity := (\<lambda>i. if i < n
            then weightVelocity s i * (9 / 10) + (targetWeights s i - probWeights s i) * (1 / 10)
            else weightVelocity s i),
       probWeights := (\<lambda>i. if i < n
            then probWeights s i
                   + (weightVelocity s i * (9 / 10)
                        + (targetWeights s i - probWeights s i) * (1 / 10)) * (5 / 100)
            else probWeights s i)\<rparr>" for n
  proof (induction n)
    case 0
    show ?case by simp
  next
    case (Suc n)
    show ?case unfolding fold_upt_Suc Suc
      by (rule engine.equality) (simp_all add: fun_eq_iff Let_def)
  qed
  then show ?thesis by (simp add: smoothWeights_def)
qed

text \<open>What the branch on the shape leaves: the weights and the engine.\<close>

lemma shapeBranch_state:
  "\<exists>c. snd (shapeBranch s) = s
       \<or> snd (shapeBranch s) = s\<lparr>rngPos := Suc (rngPos s), peakCenter := c\<rparr>"
proof (cases "probabilityShape s < 1 / 2")
  case True
  then show ?thesis by (simp add: shapeBranch_def)
next
  case False
  then have "snd (shapeBranch s)
      = s\<lparr>rngPos := Suc (rngPos s),
           peakCenter := clamp (peakCenter s + (rngSeq s (rngPos s) - 1 / 2) * chaosAmount s * (1 / 2))
                           0 (real (NUM_BUFFERS - 1))\<rparr>"
    by (simp add: shapeBranch_def peakedBranch_closed Let_def)
  then show ?thesis by blast
qed

lemma shapeBranch_keeps:
  "chaosAmount (snd (shapeBranch s)) = chaosAmount s"
  "rngSeq (snd (shapeBranch s)) = rngSeq s"
  "probWeights (snd (shapeBranch s)) = probWeights s"
  "weightVelocity (snd (shapeBranch s)) = weightVelocity s"
  "targetWeights (snd (shapeBranch s)) = targetWeights s"
  by (simp_all add: shapeBranch_def peakedBranch_closed Let_def)

text \<open>The weights before the chaos loop sum to 1 as soon as the targets do.\<close>

lemma shapeBranch_sum:
  assumes "(\<Sum>i<NUM_BUFFERS. targetWeights s i) = 1"
  shows "(\<Sum>i<NUM_BUFFERS. fst (shapeBranch s) i) = 1"
proof (cases "probabilityShape s < 1 / 2")
  case True
  let ?u = "(1 / 2 - probabilityShape s) * 2"
  have "(\<Sum>i<NUM_BUFFERS. (1 - ?u) * targetWeights s i + ?u / real NUM_BUFFERS)
          = (1 - ?u) * (\<Sum>i<NUM_BUFFERS. targetWeights s i) + real NUM_BUFFERS * (?u / real NUM_BUFFERS)"
    by (simp only: sum.distrib sum_distrib_left sum_constant card_lessThan)
  also have "\<dots> = (1 - ?u) * 1 + real NUM_BUFFERS * (?u / real NUM_BUFFERS)"
    by (simp only: assms)
  also have "\<dots> = 1"
    by (simp add: NUM_BUFFERS_def field_simps)
  finally have "(\<Sum>i<NUM_BUFFERS. (1 - ?u) * targetWeights s i + ?u / real NUM_BUFFERS) = 1" .
  with True show ?thesis
    by (simp add: shapeBranch_def uniformBranch_closed)
next
  case False
  have n: "0 < NUM_BUFFERS" by (simp add: NUM_BUFFERS_def)
  have "(\<Sum>i<NUM_BUFFERS. exp (- \<bar>real i - c\<bar> * k * 2) / (\<Sum>j<NUM_BUFFERS. exp (- \<bar>real j - c\<bar> * k * 2))) = 1" for c k
    by (rule peaked_weights(2) [OF _ n]) simp
  with False show ?thesis
    by (simp add: shapeBranch_def peakedBranch_closed Let_def peakedFill_closed)
qed

lemma retarget_closed:
  "retarget s =
     ((\<lambda>i. if i < NUM_BUFFERS
           then clamp (fst (shapeBranch s) i
                        + (rngSeq s (rngPos (snd (shapeBranch s)) + i) - 1 / 2) * chaosAmount s * (1 / 10))
                  0 1
           else fst (shapeBranch s) i),
      (snd (shapeBranch s))\<lparr>rngPos := rngPos (snd (shapeBranch s)) + NUM_BUFFERS\<rparr>)"
proof -
  have "retarget s = addChaos (fst (shapeBranch s), snd (shapeBranch s))"
    by (simp add: retarget_def)
  then show ?thesis
    by (simp only: addChaos_closed shapeBranch_keeps)
qed

lemma updateProbabilityWeights_weights:
  assumes "i < NUM_BUFFERS"
  shows "targetWeights (updateProbabilityWeights s) i
           = fst (retarget s) i / weightSum (fst (retarget s))"
    and "weightVelocity (updateProbabilityWeights s) i
           = weightVelocity s i * (9 / 10)
             + (targetWeights (updateProbabilityWeights s) i - probWeights s i) * (1 / 10)"
    and "probWeights (updateProbabilityWeights s) i
           = probWeights s i + weightVelocity (updateProbabilityWeights s) i * (5 / 100)"
  using assms
  by (simp_all add: updateProbabilityWeights_def split_def Let_def smoothWeights_closed
      storeTargets_closed retarget_closed shapeBranch_keeps)

lemma retarget_sum_pos:
  assumes "(\<Sum>i<NUM_BUFFERS. targetWeights s i) = 1"
    and "0 \<le> chaosAmount s" "chaosAmount s \<le> 1"
    and "\<And>n. 0 \<le> rngSeq s n"
  shows "0 < weightSum (fst (retarget s))"
    and "\<And>i. i < NUM_BUFFERS \<Longrightarrow> 0 \<le> fst (retarget s) i"
proof -
  let ?z = "\<lambda>i. (rngSeq s (rngPos (snd (shapeBranch s)) + i) - 1 / 2) * chaosAmount s * (1 / 10)"
  have n: "0 < NUM_BUFFERS" "NUM_BUFFERS \<le> 19" by (simp_all add: NUM_BUFFERS_def)
  have z: "- (1 / 20) \<le> ?z i" for i
    by (rule chaos_noise_bound) (use assms in auto)
  have "0 < (\<Sum>i<NUM_BUFFERS. clamp (fst (shapeBranch s) i + ?z i) 0 1)"
    by (rule chaos_sum_pos [OF shapeBranch_sum [OF assms(1)] n z])
  then show "0 < weightSum (fst (retarget s))"
    by (simp add: weightSum_eq retarget_closed)
  show "0 \<le> fst (retarget s) i" if "i < NUM_BUFFERS" for i
    using that by (simp add: retarget_closed clamp_def)
qed

lemma updateProbabilityWeights_keeps_normalized:
  assumes ts: "(\<Sum>i<NUM_BUFFERS. targetWeights s i) = 1"
    and ps: "(\<Sum>i<NUM_BUFFERS. probWeights s i) = 1"
    and vs: "(\<Sum>i<NUM_BUFFERS. weightVelocity s i) = 0"
    and c: "0 \<le> chaosAmount s" "chaosAmount s \<le> 1"
    and r: "\<And>n. 0 \<le> rngSeq s n"
  shows "normalized (updateProbabilityWeights s)"
proof -
  let ?s = "updateProbabilityWeights s"
  let ?w = "fst (retarget s)"
  note pos = retarget_sum_pos [OF ts c r]
  have t': "0 \<le> targetWeights ?s i" if "i < NUM_BUFFERS" for i
    using that pos by (simp add: updateProbabilityWeights_weights)
  have "(\<Sum>i<NUM_BUFFERS. targetWeights ?s i)
          = (\<Sum>i<NUM_BUFFERS. ?w i / weightSum ?w)"
    by (rule sum.cong) (simp_all add: updateProbabilityWeights_weights)
  also have "\<dots> = (\<Sum>i<NUM_BUFFERS. ?w i) / weightSum ?w"
    by (rule sum_divide_distrib [symmetric])
  also have "\<dots> = 1"
    using pos(1) by (simp add: weightSum_eq)
  finally have ts': "(\<Sum>i<NUM_BUFFERS. targetWeights ?s i) = 1" .
  have "(\<Sum>i<NUM_BUFFERS. weightVelocity ?s i)
          = (\<Sum>i<NUM_BUFFERS. weightVelocity s i * (9 / 10)
               + (targetWeights ?s i - probWeights s i) * (1 / 10))"
    by (rule sum.cong) (simp_all add: updateProbabilityWeights_weights(2))
  also have "\<dots> = (\<Sum>i<NUM_BUFFERS. weightVelocity s i) * (9 / 10)
               + ((\<Sum>i<NUM_BUFFERS. targetWeights ?s i) - (\<Sum>i<NUM_BUFFERS. probWeights s i)) * (1 / 10)"
    by (simp only: sum.distrib sum_subtractf flip: sum_distrib_right)
  also have "\<dots> = 0"
    by (simp add: ts' ps vs)
  finally have vs': "(\<Sum>i<NUM_BUFFERS. weightVelocity ?s i) = 0" .
  have "(\<Sum>i<NUM_BUFFERS. probWeights ?s i)
          = (\<Sum>i<NUM_BUFFERS. probWeights s i + weightVelocity ?s i * (5 / 100))"
    by (rule sum.cong) (simp_all add: updateProbabilityWeights_weights(3))
  also have "\<dots> = (\<Sum>i<NUM_BUFFERS. probWeights s i)
                      + (\<Sum>i<NUM_BUFFERS. weightVelocity ?s i) * (5 / 100)"
    by (simp only: sum.distrib flip: sum_distrib_right)
  also have "\<dots> = 1"
    by (simp add: ps vs')
  finally have ps': "(\<Sum>i<NUM_BUFFERS. probWeights ?s i) = 1" .
  from t' ts' ps' vs' show ?thesis
    by (simp add: normalized_def list_all_iff)
qed

lemma delayLoop_closed:
  "fold (\<lambda>i s.
           let t = real i / real (NUM_BUFFERS - 1);
               delayRange = (mx - mn) * spreadAmount s;
               d0 = mn + t * delayRange;
               (r, s') = fastRandom s;
               d1 = d0 + (r - 1 / 2) * sr * (5 / 1000) * chaosAmount s';
               d = clamp d1 1 (real_of_int (BUFFER_SIZE - 1));
               delaySamples = truncate_int d
           in s'\<lparr>delayTimes := (delayTimes s')(i := d),
                  readIndices := (readIndices s')
                    (i := (writeIndex s' - delaySamples + BUFFER_SIZE) smod BUFFER_SIZE)\<rparr>)
     [0..<n] s
   = s\<lparr>delayTimes := (\<lambda>i. if i < n
          then clamp (mn + real i / real (NUM_BUFFERS - 1) * ((mx - mn) * spreadAmount s)
                       + (rngSeq s (rngPos s + i) - 1 / 2) * sr * (5 / 1000) * chaosAmount s)
                 1 (real_of_int (BUFFER_SIZE - 1))
          else delayTimes s i),
        readIndices := (\<lambda>i. if i < n
          then (writeIndex s
                 - truncate_int
                     (clamp (mn + real i / real (NUM_BUFFERS - 1) * ((mx - mn) * spreadAmount s)
                              + (rngSeq s (rngPos s + i) - 1 / 2) * sr * (5 / 1000) * chaosAmount s)
                        1 (real_of_int (BUFFER_SIZE - 1)))
                 + BUFFER_SIZE) smod BUFFER_SIZE
          else readIndices s i),
        rngPos := rngPos s + n\<rparr>"
proof (induction n)
  case 0
  show ?case by simp
next
  case (Suc n)
  show ?case unfolding fold_upt_Suc Suc
    by (rule engine.equality) (simp_all add: fun_eq_iff Let_def fastRandom_def)
qed

lemma collapseLoop_closed:
  "fold (\<lambda>i s.
           if int i = k
           then s\<lparr>targetWeights := (targetWeights s)(i := c)\<rparr>
           else s\<lparr>targetWeights := (targetWeights s)(i := d)\<rparr>)
     [0..<n] s
   = s\<lparr>targetWeights := (\<lambda>i. if i < n then (if int i = k then c else d)
                                else targetWeights s i)\<rparr>"
proof (induction n)
  case 0
  show ?case by simp
next
  case (Suc n)
  show ?case unfolding fold_upt_Suc Suc
    by (rule engine.equality) (simp_all add: fun_eq_iff)
qed

lemma handleQuantumCollapse_closed:
  "handleQuantumCollapse s =
     s\<lparr>rngPos := Suc (rngPos s),
       targetWeights := (\<lambda>i. if i < NUM_BUFFERS
          then (if int i = truncate_int (rngSeq s (rngPos s) * real NUM_BUFFERS) then 7 / 10
                else (1 - 7 / 10) / real (NUM_BUFFERS - 1))
          else targetWeights s i),
       collapseLight := 1\<rparr>"
  unfolding handleQuantumCollapse_def fastRandom_def Let_def split_def fst_conv snd_conv
    collapseLoop_closed
  by (rule engine.equality) (simp_all add: fun_eq_iff)

lemma updateDelayTimes_closed:
  "updateDelayTimes sr s =
     (let mx = clamp ((baseDelayTime s * 2000 / 1000) * sr) 10 (real_of_int (BUFFER_SIZE - 1));
          d = (\<lambda>i. clamp (10 + real i / real (NUM_BUFFERS - 1) * ((mx - 10) * spreadAmount s)
                       + (rngSeq s (rngPos s + i) - 1 / 2) * sr * (5 / 1000) * chaosAmount s)
                 1 (real_of_int (BUFFER_SIZE - 1)))
      in s\<lparr>delayTimes := (\<lambda>i. if i < NUM_BUFFERS then d i else delayTimes s i),
            readIndices := (\<lambda>i. if i < NUM_BUFFERS
               then (writeIndex s - truncate_int (d i) + BUFFER_SIZE) smod BUFFER_SIZE
               else readIndices s i),
            rngPos := rngPos s + NUM_BUFFERS\<rparr>)"
  apply (simp only: updateDelayTimes_def)
  apply (subst Let_def, subst Let_def)
  apply (simp only: delayLoop_closed)
  apply (simp only: Let_def)
  done

section \<open>The engine step by step\<close>

lemma updateProbabilityWeights_frame:
  "updateProbabilityWeights s =
     s\<lparr>rngPos := rngPos (updateProbabilityWeights s),
       peakCenter := peakCenter (updateProbabilityWeights s),
       targetWeights := targetWeights (updateProbabilityWeights s),
       weightVelocity := weightVelocity (updateProbabilityWeights s),
       probWeights := probWeights (updateProbabilityWeights s)\<rparr>"
proof -
  obtain c where "snd (shapeBranch s) = s
      \<or> snd (shapeBranch s) = s\<lparr>rngPos := Suc (rngPos s), peakCenter := c\<rparr>"
    using shapeBranch_state by blast
  then show ?thesis
  proof
    assume a: "snd (shapeBranch s) = s"
    show ?thesis
      by (rule engine.equality)
        (simp_all add: updateProbabilityWeights_def split_def Let_def smoothWeights_closed
          storeTargets_closed retarget_closed a)
  next
    assume a: "snd (shapeBranch s) = s\<lparr>rngPos := Suc (rngPos s), peakCenter := c\<rparr>"
    show ?thesis
      by (rule engine.equality)
        (simp_all add: updateProbabilityWeights_def split_def Let_def smoothWeights_closed
          storeTargets_closed retarget_closed a)
  qed
qed

lemma initializeQuantumState_closed:
  "initializeQuantumState s =
     s\<lparr>probWeights := (\<lambda>i. if i < NUM_BUFFERS then 1 / real NUM_BUFFERS else probWeights s i),
       targetWeights := (\<lambda>i. if i < NUM_BUFFERS then 1 / real NUM_BUFFERS else targetWeights s i),
       weightVelocity := (\<lambda>i. if i < NUM_BUFFERS then 0 else weightVelocity s i),
       delayTimes := (\<lambda>i. if i < NUM_BUFFERS then 1000 + real i * 1500 else delayTimes s i),
       feedbackLevels := (\<lambda>i. if i < NUM_BUFFERS then 3 / 10 else feedbackLevels s i),
       entanglement := (\<lambda>i. if i < NUM_BUFFERS then 0 else entanglement s i)\<rparr>"
proof -
  have "fold (\<lambda>i s. s\<lparr>probWeights := (probWeights s)(i := e),
                     targetWeights := (targetWeights s)(i := e),
                     weightVelocity := (weightVelocity s)(i := 0),
                     delayTimes := (delayTimes s)(i := 1000 + real i * 1500),
                     feedbackLevels := (feedbackLevels s)(i := 3 / 10),
                     entanglement := (entanglement s)(i := 0)\<rparr>)
        [0..<n] s
    = s\<lparr>probWeights := (\<lambda>i. if i < n then e else probWeights s i),
       targetWeights := (\<lambda>i. if i < n then e else targetWeights s i),
       weightVelocity := (\<lambda>i. if i < n then 0 else weightVelocity s i),
       delayTimes := (\<lambda>i. if i < n then 1000 + real i * 1500 else delayTimes s i),
       feedbackLevels := (\<lambda>i. if i < n then 3 / 10 else feedbackLevels s i),
       entanglement := (\<lambda>i. if i < n then 0 else entanglement s i)\<rparr>" for n e
  proof (induction n)
    case 0
    show ?case by simp
  next
    case (Suc n)
    show ?case unfolding fold_upt_Suc Suc
      by (rule engine.equality) (simp_all add: fun_eq_iff)
  qed
  then show ?thesis by (simp add: initializeQuantumState_def Let_def)
qed

lemma constructed_closed:
  "constructed rs =
     \<lparr>delayBuffers = (\<lambda>b i. 0), writeIndex = 0, readIndices = (\<lambda>b. 0),
      probWeights = (\<lambda>i. if i < NUM_BUFFERS then 1 / real NUM_BUFFERS else 0),
      targetWeights = (\<lambda>i. if i < NUM_BUFFERS then 1 / real NUM_BUFFERS else 0),
      weightVelocity = (\<lambda>i. 0),
      delayTimes = (\<lambda>i. if i < NUM_BUFFERS then 1000 + real i * 1500 else 0),
      feedbackLevels = (\<lambda>i. if i < NUM_BUFFERS then 3 / 10 else 0),
      entanglement = (\<lambda>i. 0),
      baseDelayTime = 1 / 2, spreadAmount = 1 / 2, probabilityShape = 1 / 2,
      globalFeedback = 3 / 10, dryWetMix = 1 / 2, chaosAmount = 1 / 10,
      collapseTrigger = True, collapseLight = 0,
      rngSeq = rs, rngPos = 0, peakCenter = real NUM_BUFFERS / 2, controlDivider = 0,
      lights = (\<lambda>l. 0), audioOutput = 0\<rparr>"
  by (simp add: constructed_def initializeQuantumState_closed fun_eq_iff)

lemma controlTick_idle:
  "controlDivider s + 1 < 64 \<Longrightarrow> controlTick p s = s\<lparr>controlDivider := controlDivider s + 1\<rparr>"
  by (simp add: controlTick_def Let_def)

lemma controlTick_due:
  "64 \<le> controlDivider s + 1 \<Longrightarrow>
     controlTick p s = updateDelayTimes (sampleRate p)
        (updateProbabilityWeights (updateControls p (s\<lparr>controlDivider := 0\<rparr>)))"
  by (simp add: controlTick_def Let_def)

lemma collapseCheck_idle:
  "\<not> fst (schmittProcess (collapseTrigger s) (collapseTriggerInput p) (1 / 10) 2) \<Longrightarrow>
     collapseCheck p s
       = s\<lparr>collapseTrigger :=
             snd (schmittProcess (collapseTrigger s) (collapseTriggerInput p) (1 / 10) 2)\<rparr>"
  by (simp add: collapseCheck_def split_def Let_def)

lemma collapseCheck_fired:
  "fst (schmittProcess (collapseTrigger s) (collapseTriggerInput p) (1 / 10) 2) \<Longrightarrow>
     collapseCheck p s = handleQuantumCollapse (s\<lparr>collapseTrigger := True\<rparr>)"
  by (auto simp add: collapseCheck_def split_def Let_def schmittProcess_def split: if_splits)

lemma collapseCheck_dryWetMix: "dryWetMix (collapseCheck p s) = dryWetMix s"
  by (simp add: collapseCheck_def split_def Let_def handleQuantumCollapse_closed)

lemma controlTick_dryWetMix:
  "dryWetMix (controlTick p s) = (if 64 \<le> controlDivider s + 1 then potMix p else dryWetMix s)"
proof (cases "64 \<le> controlDivider s + 1")
  case True
  have "dryWetMix (updateProbabilityWeights t) = dryWetMix t" for t
    by (subst updateProbabilityWeights_frame) simp
  with True show ?thesis
    by (simp add: controlTick_due updateDelayTimes_closed Let_def updateControls_def)
next
  case False
  then show ?thesis by (simp add: controlTick_idle)
qed

lemma process_dryWetMix:
  "dryWetMix (process p s) = (if 64 \<le> controlDivider s + 1 then potMix p else dryWetMix s)"
  by (simp add: process_def audioStep_keeps controlStep_def decayLight_def Let_def
      collapseCheck_dryWetMix controlTick_dryWetMix)

section \<open>Lemmas for the claims\<close>

subsection \<open>The collapse\<close>

lemma dominantBuffer_range:
  assumes "0 \<le> r" "r < 1"
  shows "0 \<le> truncate_int (r * real NUM_BUFFERS)"
    and "truncate_int (r * real NUM_BUFFERS) < int NUM_BUFFERS"
    and "truncate_int (r * real NUM_BUFFERS) = \<lfloor>r * real NUM_BUFFERS\<rfloor>"
proof -
  have nn: "0 \<le> r * real NUM_BUFFERS" using assms by simp
  then show t: "truncate_int (r * real NUM_BUFFERS) = \<lfloor>r * real NUM_BUFFERS\<rfloor>"
    by (simp add: truncate_int_def)
  from nn show "0 \<le> truncate_int (r * real NUM_BUFFERS)"
    unfolding t by simp
  have "r * real NUM_BUFFERS < real NUM_BUFFERS"
    using assms by (simp add: NUM_BUFFERS_def)
  then show "truncate_int (r * real NUM_BUFFERS) < int NUM_BUFFERS"
    unfolding t by (simp add: floor_less_iff)
qed

subsection \<open>Persistence\<close>

lemma fold_snoc_map: "fold (\<lambda>i xs. xs @ [f i]) [0..<n] [] = map f [0..<n]"
  by (induction n) simp_all

lemma dataToJson_closed:
  "dataToJson s = JObject [(''probWeights'', JArray (map (\<lambda>i. JReal (probWeights s i)) [0..<NUM_BUFFERS]))]"
  by (simp add: dataToJson_def fold_snoc_map)

lemma restoreLoop_closed:
  "fold (\<lambda>i s.
           case json_array_get weightsJ i of
             None \<Rightarrow> s
           | Some weightJ \<Rightarrow>
               (let s1 = s\<lparr>probWeights := (probWeights s)(i := json_real_value weightJ)\<rparr>
                in s1\<lparr>targetWeights := (targetWeights s1)(i := probWeights s1 i)\<rparr>))
     [0..<n] s
   = s\<lparr>probWeights := (\<lambda>i. case (if i < n then json_array_get weightsJ i else None) of
                              None \<Rightarrow> probWeights s i | Some weightJ \<Rightarrow> json_real_value weightJ),
       targetWeights := (\<lambda>i. case (if i < n then json_array_get weightsJ i else None) of
                              None \<Rightarrow> targetWeights s i | Some weightJ \<Rightarrow> json_real_value weightJ)\<rparr>"
proof (induction n)
  case 0
  show ?case by simp
next
  case (Suc n)
  show ?case unfolding fold_upt_Suc Suc
    by (rule engine.equality) (auto simp add: fun_eq_iff Let_def less_Suc_eq split: option.splits)
qed

lemma dataFromJson_missing:
  "json_object_get rootJ ''probWeights'' = None \<Longrightarrow> dataFromJson rootJ s = s"
  by (simp add: dataFromJson_def)

lemma dataFromJson_present:
  "json_object_get rootJ ''probWeights'' = Some weightsJ \<Longrightarrow>
   dataFromJson rootJ s =
     s\<lparr>probWeights := (\<lambda>i. case (if i < NUM_BUFFERS then json_array_get weightsJ i else None) of
                              None \<Rightarrow> probWeights s i | Some weightJ \<Rightarrow> json_real_value weightJ),
       targetWeights := (\<lambda>i. case (if i < NUM_BUFFERS then json_array_get weightsJ i else None) of
                              None \<Rightarrow> targetWeights s i | Some weightJ \<Rightarrow> json_real_value weightJ)\<rparr>"
  by (simp add: dataFromJson_def restoreLoop_closed)

lemma dataFromJson_not_array:
  assumes "json_object_get rootJ ''probWeights'' = Some weightsJ"
    and "\<And>xs. weightsJ \<noteq> JArray xs"
  shows "dataFromJson rootJ s = s"
proof -
  have "json_array_get weightsJ i = None" for i
    using assms(2) by (cases weightsJ) auto
  then show ?thesis
    unfolding dataFromJson_present [OF assms(1)]
    by (intro engine.equality) (simp_all add: fun_eq_iff)
qed

subsection \<open>An idle step\<close>

lemma controlStep_idle:
  assumes "controlDivider s + 1 < 64"
    and "\<not> fst (schmittProcess (collapseTrigger s) (collapseTriggerInput p) (1 / 10) 2)"
  shows "controlStep p s =
     s\<lparr>controlDivider := controlDivider s + 1,
       collapseTrigger := snd (schmittProcess (collapseTrigger s) (collapseTriggerInput p) (1 / 10) 2),
       collapseLight := collapseLight s - collapseLight s / sampleRate p * 5,
       lights := (lights s)(COLLAPSE_LIGHT := collapseLight s - collapseLight s / sampleRate p * 5)\<rparr>"
  using assms
  by (simp add: controlStep_def controlTick_idle collapseCheck_idle decayLight_def Let_def)

subsection \<open>Delay lengths and cursors\<close>

lemma BUFFER_SIZE_eq: "BUFFER_SIZE = 16000"
  by (simp add: BUFFER_SIZE_def MAX_DELAY_SAMPLES_def NUM_BUFFERS_def signed_divide_int_def)

lemma smod_nonneg: "0 \<le> a \<Longrightarrow> 0 < b \<Longrightarrow> a smod b = a mod (b::int)"
  by (cases "a = 0") (simp_all add: smod_int_alt_def)

lemma updateDelayTimes_cursor:
  assumes "0 \<le> writeIndex s" "writeIndex s < BUFFER_SIZE" "b < NUM_BUFFERS"
  shows "readIndices (updateDelayTimes sr s) b
           = (writeIndex s - \<lfloor>delayTimes (updateDelayTimes sr s) b\<rfloor> + BUFFER_SIZE) mod BUFFER_SIZE"
    and "0 \<le> readIndices (updateDelayTimes sr s) b"
    and "readIndices (updateDelayTimes sr s) b < BUFFER_SIZE"
    and "readIndices (updateDelayTimes sr s) b \<noteq> writeIndex s"
    and "writeIndex (updateDelayTimes sr s) = writeIndex s"
proof -
  let ?s = "updateDelayTimes sr s"
  let ?d = "delayTimes ?s b"
  have bs: "(1::real) \<le> real_of_int (BUFFER_SIZE - 1)"
    by (simp add: BUFFER_SIZE_eq)
  have d: "1 \<le> ?d" "?d \<le> real_of_int (BUFFER_SIZE - 1)"
    using clamp_bounds [OF bs] assms(3) by (simp_all add: updateDelayTimes_closed Let_def)
  then have t: "truncate_int ?d = \<lfloor>?d\<rfloor>"
    by (simp add: truncate_int_def)
  have f: "1 \<le> \<lfloor>?d\<rfloor>" "\<lfloor>?d\<rfloor> \<le> 15999"
  proof -
    show "1 \<le> \<lfloor>?d\<rfloor>" using d(1) by (simp add: le_floor_iff)
    have "?d \<le> 15999" using d(2) by (simp add: BUFFER_SIZE_eq)
    then show "\<lfloor>?d\<rfloor> \<le> 15999" by (simp add: floor_le_iff)
  qed
  have w: "0 \<le> writeIndex s" "writeIndex s < 16000"
    using assms(1,2) by (simp_all add: BUFFER_SIZE_eq)
  have r: "readIndices ?s b = (writeIndex s - truncate_int ?d + BUFFER_SIZE) smod BUFFER_SIZE"
    using assms(3) by (simp add: updateDelayTimes_closed Let_def)
  have nn: "0 \<le> writeIndex s - \<lfloor>?d\<rfloor> + BUFFER_SIZE" "0 < BUFFER_SIZE"
    unfolding BUFFER_SIZE_eq using f w by linarith+
  show e: "readIndices ?s b = (writeIndex s - \<lfloor>?d\<rfloor> + BUFFER_SIZE) mod BUFFER_SIZE"
    unfolding r t by (rule smod_nonneg [OF nn])
  show "0 \<le> readIndices ?s b" "readIndices ?s b < BUFFER_SIZE"
    unfolding e using nn(2) by simp_all
  show "readIndices ?s b \<noteq> writeIndex s"
  proof (cases "\<lfloor>?d\<rfloor> \<le> writeIndex s")
    case True
    have "(writeIndex s - \<lfloor>?d\<rfloor> + 16000) mod 16000 = (writeIndex s - \<lfloor>?d\<rfloor>) mod 16000"
      by simp
    also have "\<dots> = writeIndex s - \<lfloor>?d\<rfloor>"
      using True w f by (intro mod_pos_pos_trivial) linarith+
    finally have "(writeIndex s - \<lfloor>?d\<rfloor> + 16000) mod 16000 = writeIndex s - \<lfloor>?d\<rfloor>" .
    with f show ?thesis unfolding e BUFFER_SIZE_eq by linarith
  next
    case False
    then have "(writeIndex s - \<lfloor>?d\<rfloor> + 16000) mod 16000 = writeIndex s - \<lfloor>?d\<rfloor> + 16000"
      using w f by (intro mod_pos_pos_trivial) linarith+
    with f show ?thesis unfolding e BUFFER_SIZE_eq by linarith
  qed
  show "writeIndex ?s = writeIndex s"
    by (simp add: updateDelayTimes_closed Let_def)
qed

lemma collapseCheck_frame:
  "collapseCheck p s =
     s\<lparr>collapseTrigger := collapseTrigger (collapseCheck p s),
       rngPos := rngPos (collapseCheck p s),
       targetWeights := targetWeights (collapseCheck p s),
       collapseLight := collapseLight (collapseCheck p s)\<rparr>"
  by (rule engine.equality)
    (simp_all add: collapseCheck_def split_def Let_def handleQuantumCollapse_closed)

lemma controlTick_cursors:
  "writeIndex (controlTick p s) = writeIndex s"
  "controlDivider (controlTick p s) = (if 64 \<le> controlDivider s + 1 then 0 else controlDivider s + 1)"
proof -
  have u: "writeIndex (updateProbabilityWeights t) = writeIndex t"
    "controlDivider (updateProbabilityWeights t) = controlDivider t" for t
    by (subst updateProbabilityWeights_frame, simp)+
  show "writeIndex (controlTick p s) = writeIndex s"
    by (simp add: controlTick_def Let_def updateDelayTimes_closed u updateControls_def)
  show "controlDivider (controlTick p s) = (if 64 \<le> controlDivider s + 1 then 0 else controlDivider s + 1)"
    by (simp add: controlTick_def Let_def updateDelayTimes_closed u updateControls_def)
qed

lemma controlStep_cursors:
  "writeIndex (controlStep p s) = writeIndex s"
  "controlDivider (controlStep p s) = (if 64 \<le> controlDivider s + 1 then 0 else controlDivider s + 1)"
  "readIndices (controlStep p s) = readIndices (controlTick p s)"
  "delayTimes (controlStep p s) = delayTimes (controlTick p s)"
proof -
  have c: "writeIndex (collapseCheck p t) = writeIndex t"
    "controlDivider (collapseCheck p t) = controlDivider t"
    "readIndices (collapseCheck p t) = readIndices t"
    "delayTimes (collapseCheck p t) = delayTimes t" for t
    by (subst collapseCheck_frame, simp)+
  show "writeIndex (controlStep p s) = writeIndex s"
    "controlDivider (controlStep p s) = (if 64 \<le> controlDivider s + 1 then 0 else controlDivider s + 1)"
    "readIndices (controlStep p s) = readIndices (controlTick p s)"
    "delayTimes (controlStep p s) = delayTimes (controlTick p s)"
    by (simp_all add: controlStep_def decayLight_def Let_def c controlTick_cursors)
qed

lemma writeIndex_entangle: "writeIndex (entangle b f s) = writeIndex s"
  unfolding entangle_def
  by (rule fold_keeps) (simp add: Let_def)

lemma writeIndex_readBuffers: "writeIndex (snd (readBuffers s)) = writeIndex s"
proof -
  have "writeIndex (snd (bufferStep b x)) = writeIndex (snd x)" for b x
    by (simp add: bufferStep_def split_def Let_def writeIndex_entangle)
  then have "writeIndex (snd (fold bufferStep xs x)) = writeIndex (snd x)" for xs x
    by (intro fold_keeps [where g = "\<lambda>x. writeIndex (snd x)"])
  then show ?thesis by (simp add: readBuffers_def)
qed

lemma writeIndex_writeInput: "writeIndex (writeInput v s) = writeIndex s"
  unfolding writeInput_def
  by (rule fold_keeps) simp

lemma process_cursors:
  "writeIndex (process p s) = (writeIndex s + 1) smod BUFFER_SIZE"
  "controlDivider (process p s) = (if 64 \<le> controlDivider s + 1 then 0 else controlDivider s + 1)"
  "readIndices (process p s) = readIndices (controlTick p s)"
  "delayTimes (process p s) = delayTimes (controlTick p s)"
proof -
  show "writeIndex (process p s) = (writeIndex s + 1) smod BUFFER_SIZE"
    by (simp add: process_def audioStep_def split_def Let_def writeIndex_readBuffers
        writeIndex_writeInput controlStep_cursors)
  show "controlDivider (process p s) = (if 64 \<le> controlDivider s + 1 then 0 else controlDivider s + 1)"
    "readIndices (process p s) = readIndices (controlTick p s)"
    "delayTimes (process p s) = delayTimes (controlTick p s)"
    by (simp_all add: process_def audioStep_keeps controlStep_cursors)
qed

lemma process_tick_cursor:
  assumes "64 \<le> controlDivider s + 1" "0 \<le> writeIndex s" "writeIndex s < BUFFER_SIZE"
    "b < NUM_BUFFERS"
  shows "readIndices (process p s) b
           = (writeIndex s - \<lfloor>delayTimes (process p s) b\<rfloor> + BUFFER_SIZE) mod BUFFER_SIZE"
    and "0 \<le> readIndices (process p s) b"
    and "readIndices (process p s) b < BUFFER_SIZE"
    and "readIndices (process p s) b \<noteq> writeIndex s"
proof -
  let ?t = "updateProbabilityWeights (updateControls p (s\<lparr>controlDivider := 0\<rparr>))"
  have w: "writeIndex ?t = writeIndex s"
    by (subst updateProbabilityWeights_frame) (simp add: updateControls_def)
  have t: "readIndices (process p s) = readIndices (updateDelayTimes (sampleRate p) ?t)"
    "delayTimes (process p s) = delayTimes (updateDelayTimes (sampleRate p) ?t)"
    using assms(1) by (simp_all add: process_cursors controlTick_due)
  note c = updateDelayTimes_cursor [of ?t b "sampleRate p", unfolded w, OF assms(2,3,4)]
  show "readIndices (process p s) b
           = (writeIndex s - \<lfloor>delayTimes (process p s) b\<rfloor> + BUFFER_SIZE) mod BUFFER_SIZE"
    "0 \<le> readIndices (process p s) b"
    "readIndices (process p s) b < BUFFER_SIZE"
    "readIndices (process p s) b \<noteq> writeIndex s"
    unfolding t using c by simp_all
qed

lemma process_idle_cursor:
  "controlDivider s + 1 < 64 \<Longrightarrow> readIndices (process p s) = readIndices s"
  by (simp add: process_cursors controlTick_idle)

lemma dataFromJson_cursors:
  "writeIndex (dataFromJson rootJ s) = writeIndex s"
  "readIndices (dataFromJson rootJ s) = readIndices s"
  by (cases "json_object_get rootJ ''probWeights''";
      simp add: dataFromJson_missing dataFromJson_present)+

lemma reachable_cursors:
  assumes "reachable s"
  shows "0 \<le> writeIndex s \<and> writeIndex s < BUFFER_SIZE
       \<and> (\<forall>b<NUM_BUFFERS. 0 \<le> readIndices s b \<and> readIndices s b < BUFFER_SIZE)"
  using assms
proof (induction rule: reachable.induct)
  case (reachable_constructed rs)
  show ?case by (simp add: constructed_closed BUFFER_SIZE_eq)
next
  case (reachable_process s p)
  then have w: "0 \<le> writeIndex s" "writeIndex s < BUFFER_SIZE"
    and r: "\<And>b. b < NUM_BUFFERS \<Longrightarrow> 0 \<le> readIndices s b \<and> readIndices s b < BUFFER_SIZE"
    by simp_all
  have "0 \<le> writeIndex s + 1" "0 < BUFFER_SIZE"
    using w by simp_all
  then have "0 \<le> writeIndex (process p s) \<and> writeIndex (process p s) < BUFFER_SIZE"
    by (simp add: process_cursors smod_nonneg)
  moreover have "0 \<le> readIndices (process p s) b \<and> readIndices (process p s) b < BUFFER_SIZE"
    if "b < NUM_BUFFERS" for b
  proof (cases "64 \<le> controlDivider s + 1")
    case True
    from process_tick_cursor(2,3) [OF True w that] show ?thesis by simp
  next
    case False
    then show ?thesis using r [OF that] by (simp add: process_idle_cursor)
  qed
  ultimately show ?case by simp
next
  case (reachable_dataFromJson s rootJ)
  then show ?case by (simp add: dataFromJson_cursors)
qed

lemma reachable_funpow: "reachable ((process p ^^ n) (constructed rs))"
  by (induction n) (simp_all add: reachable_constructed reachable_process)

lemma early_calls:
  "n \<le> 63 \<Longrightarrow> controlDivider ((process p ^^ n) (constructed rs)) = int n
     \<and> writeIndex ((process p ^^ n) (constructed rs)) = int n"
proof (induction n)
  case 0
  show ?case by (simp add: constructed_closed)
next
  case (Suc n)
  then have ih: "controlDivider ((process p ^^ n) (constructed rs)) = int n"
    "writeIndex ((process p ^^ n) (constructed rs)) = int n"
    by simp_all
  have "(int n + 1) smod BUFFER_SIZE = (int n + 1) mod BUFFER_SIZE"
    by (rule smod_nonneg) (simp_all add: BUFFER_SIZE_eq)
  also have "\<dots> = int n + 1"
    using Suc.prems by (simp add: BUFFER_SIZE_eq)
  finally show ?case using Suc.prems
    by (simp add: process_cursors ih)
qed

lemma writeInput_closed:
  "writeInput v s =
     s\<lparr>delayBuffers := (\<lambda>b. if b < NUM_BUFFERS then (delayBuffers s b)(writeIndex s := v)
                               else delayBuffers s b)\<rparr>"
proof -
  have "fold (\<lambda>b s. s\<lparr>delayBuffers := (delayBuffers s)
                       (b := (delayBuffers s b)(writeIndex s := v))\<rparr>) [0..<n] s
     = s\<lparr>delayBuffers := (\<lambda>b. if b < n then (delayBuffers s b)(writeIndex s := v)
                               else delayBuffers s b)\<rparr>" for n
  proof (induction n)
    case 0
    show ?case by simp
  next
    case (Suc n)
    show ?case unfolding fold_upt_Suc Suc
      by (rule engine.equality) (simp_all add: fun_eq_iff)
  qed
  then show ?thesis by (simp add: writeInput_def)
qed

lemma widePorts_tick:
  assumes "controlDivider s = 63" "writeIndex s = 63"
  shows "readIndices (process widePorts s) 5 = 64"
    and "delayTimes (process widePorts s) 5 = 15999"
    and "writeIndex (process widePorts s) = 64"
    and "controlDivider (process widePorts s) = 0"
proof -
  let ?u = "updateControls widePorts (s\<lparr>controlDivider := 0\<rparr>)"
  let ?t = "updateProbabilityWeights ?u"
  have due: "64 \<le> controlDivider s + 1" using assms(1) by simp
  have f: "baseDelayTime ?t = baseDelayTime ?u" "spreadAmount ?t = spreadAmount ?u"
    "chaosAmount ?t = chaosAmount ?u" "writeIndex ?t = writeIndex ?u"
    by (subst updateProbabilityWeights_frame, simp)+
  have u: "baseDelayTime ?u = 1 / 4" "spreadAmount ?u = 1" "chaosAmount ?u = 0"
    "writeIndex ?u = 63"
    by (simp_all add: updateControls_def Let_def widePorts_def scenarioPorts_def clamp_def assms)
  have sr: "sampleRate widePorts = 48000"
    by (simp add: widePorts_def scenarioPorts_def)
  have d: "delayTimes (updateDelayTimes 48000 ?t) 5 = 15999"
    by (simp add: updateDelayTimes_closed Let_def f u BUFFER_SIZE_eq NUM_BUFFERS_def clamp_def)
  have "(63 - 15999 + 16000) smod (16000::int) = 64"
    by (simp add: smod_nonneg)
  then have r: "readIndices (updateDelayTimes 48000 ?t) 5 = 64"
    by (simp add: updateDelayTimes_closed Let_def f u BUFFER_SIZE_eq NUM_BUFFERS_def clamp_def
        truncate_int_def)
  show "readIndices (process widePorts s) 5 = 64"
    by (simp add: process_cursors controlTick_due [OF due] sr r)
  show "delayTimes (process widePorts s) 5 = 15999"
    by (simp add: process_cursors controlTick_due [OF due] sr d)
  have "(63 + 1) smod BUFFER_SIZE = 64"
    by (simp add: smod_nonneg BUFFER_SIZE_eq)
  then show "writeIndex (process widePorts s) = 64"
    by (simp add: process_cursors assms)
  show "controlDivider (process widePorts s) = 0"
    by (simp add: process_cursors assms)
qed

subsection \<open>The decay of the indicator\<close>

lemma schmitt_below_high: "v < high \<Longrightarrow> \<not> fst (schmittProcess st v low high)"
  by (simp add: schmittProcess_def)

lemma controlTick_collapseLight: "collapseLight (controlTick p s) = collapseLight s"
proof -
  have "collapseLight (updateProbabilityWeights t) = collapseLight t" for t
    by (subst updateProbabilityWeights_frame) simp
  then show ?thesis
    by (simp add: controlTick_def Let_def updateDelayTimes_closed updateControls_def)
qed

lemma process_decay:
  assumes "collapseTriggerInput p < 2"
  shows "collapseLight (process p s) = collapseLight s * (1 - 5 / sampleRate p)"
proof -
  have "\<not> fst (schmittProcess (collapseTrigger (controlTick p s)) (collapseTriggerInput p) (1 / 10) 2)"
    using assms by (rule schmitt_below_high)
  then have "collapseLight (controlStep p s)
               = collapseLight s - collapseLight s / sampleRate p * 5"
    by (simp add: controlStep_def decayLight_def Let_def collapseCheck_idle
        controlTick_collapseLight)
  then show ?thesis
    by (simp add: process_def audioStep_keeps algebra_simps)
qed

lemma funpow_process_decay:
  assumes "collapseTriggerInput p < 2"
  shows "collapseLight ((process p ^^ n) s) = collapseLight s * (1 - 5 / sampleRate p) ^ n"
  by (induction n) (simp_all add: process_decay [OF assms])

lemma euler_decay_upper:
  assumes "5 \<le> n"
  shows "(1 - 5 / real n) ^ n \<le> exp (- 5)"
proof -
  have n: "0 < real n" using assms by simp
  have "1 + (- 5 / real n) \<le> exp (- 5 / real n)"
    by (rule exp_ge_add_one_self)
  moreover have "0 \<le> 1 - 5 / real n"
    using assms n by (simp add: field_simps)
  ultimately have "(1 - 5 / real n) ^ n \<le> exp (- 5 / real n) ^ n"
    by (intro power_mono) simp_all
  also have "\<dots> = exp (real n * (- 5 / real n))"
    by (rule exp_of_nat_mult [symmetric])
  also have "real n * (- 5 / real n) = - 5"
    using n by simp
  finally show ?thesis .
qed

lemma euler_decay_lower:
  assumes "10 \<le> n"
  shows "exp (- 5) * (1 - 50 / real n) \<le> (1 - 5 / real n) ^ n"
proof -
  let ?x = "5 / real n"
  have n: "0 < real n" using assms by simp
  have x: "0 \<le> ?x" "?x \<le> 1 / 2"
    using assms n by (simp_all add: field_simps)
  have pos: "0 < 1 - ?x" using x by simp
  have "- ?x - 2 * ?x\<^sup>2 \<le> ln (1 - ?x)"
    by (rule ln_one_minus_pos_lower_bound [OF x])
  then have "exp (- ?x - 2 * ?x\<^sup>2) \<le> exp (ln (1 - ?x))"
    by simp
  then have "exp (- ?x - 2 * ?x\<^sup>2) \<le> 1 - ?x"
    using pos by simp
  then have le: "exp (- ?x - 2 * ?x\<^sup>2) ^ n \<le> (1 - ?x) ^ n"
    by (intro power_mono) simp_all
  have arg: "real n * (- ?x - 2 * ?x\<^sup>2) = - 5 + (- 50 / real n)"
    using n by (simp add: field_simps power2_eq_square)
  have "exp (- 5) * (1 - 50 / real n) = exp (- 5) * (1 + (- 50 / real n))"
    by simp
  also have "\<dots> \<le> exp (- 5) * exp (- 50 / real n)"
    by (intro mult_left_mono exp_ge_add_one_self) simp
  also have "\<dots> = exp (- 5 + (- 50 / real n))"
    by (rule exp_add [symmetric])
  also have "\<dots> = exp (real n * (- ?x - 2 * ?x\<^sup>2))"
    by (simp only: arg)
  also have "\<dots> = exp (- ?x - 2 * ?x\<^sup>2) ^ n"
    by (rule exp_of_nat_mult)
  also note le
  finally show ?thesis .
qed

subsection \<open>Weight normalization\<close>

lemma normalized_constructed: "normalized (constructed rs)"
  by (simp add: normalized_def constructed_closed list_all_iff NUM_BUFFERS_def)

lemma normalized_handleQuantumCollapse:
  assumes "normalized s" "0 \<le> rngSeq s (rngPos s)" "rngSeq s (rngPos s) < 1"
  shows "normalized (handleQuantumCollapse s)"
proof -
  let ?k = "truncate_int (rngSeq s (rngPos s) * real NUM_BUFFERS)"
  have "0 \<le> ?k" "?k < int NUM_BUFFERS"
    using dominantBuffer_range [OF assms(2,3)] by simp_all
  then have "?k = 0 \<or> ?k = 1 \<or> ?k = 2 \<or> ?k = 3 \<or> ?k = 4 \<or> ?k = 5"
    unfolding NUM_BUFFERS_def by presburger
  then have "(\<Sum>i<NUM_BUFFERS. if int i = ?k then 7 / 10 else (1 - 7 / 10) / real (NUM_BUFFERS - 1)) = (1::real)"
    unfolding NUM_BUFFERS_def
    by (elim disjE) (simp_all add: lessThan_Suc eval_nat_numeral)
  then show ?thesis
    using assms(1)
    by (simp add: normalized_def handleQuantumCollapse_closed list_all_iff)
qed

lemma regime_keeps:
  "probabilityShape (updateProbabilityWeights s) = probabilityShape s"
  "chaosAmount (updateProbabilityWeights s) = chaosAmount s"
  "rngSeq (updateProbabilityWeights s) = rngSeq s"
  by (subst updateProbabilityWeights_frame, simp)+

lemma regime_retarget:
  assumes "probabilityShape s = 49 / 100" "chaosAmount s = 1" "rngSeq s = zeroDraws"
    and "i < NUM_BUFFERS"
  shows "fst (retarget s) i = clamp (49 / 50 * targetWeights s i + 1 / 300 - 1 / 20) 0 1"
  using assms(4)
  by (simp add: retarget_closed shapeBranch_def uniformBranch_closed assms(1,2,3) zeroDraws_def
      NUM_BUFFERS_def)

lemma collapsedEngine_fields:
  "probabilityShape collapsedEngine = 49 / 100"
  "chaosAmount collapsedEngine = 1"
  "rngSeq collapsedEngine = zeroDraws"
  "targetWeights collapsedEngine = (\<lambda>i. if i < NUM_BUFFERS then (if i = 0 then 7 / 10 else 3 / 50) else 0)"
  "weightVelocity collapsedEngine = (\<lambda>i. 0)"
  "probWeights collapsedEngine = (\<lambda>i. if i < NUM_BUFFERS then 1 / 6 else 0)"
  by (simp_all add: collapsedEngine_def handleQuantumCollapse_closed updateControls_def Let_def
      freshEngine_def constructed_closed scenarioPorts_def clamp_def zeroDraws_def
      truncate_int_def fun_eq_iff NUM_BUFFERS_def)

lemma first_cycle:
  "targetWeights (updateProbabilityWeights collapsedEngine) 2 = 13 / 750"
  "weightVelocity (updateProbabilityWeights collapsedEngine) 2 = - 28 / 1875"
  "probWeights (updateProbabilityWeights collapsedEngine) 2 = 1037 / 6250"
proof -
  have i: "(2::nat) < NUM_BUFFERS" by (simp add: NUM_BUFFERS_def)
  have w: "fst (retarget collapsedEngine) i
             = clamp (49 / 50 * targetWeights collapsedEngine i + 1 / 300 - 1 / 20) 0 1"
    if "i < NUM_BUFFERS" for i
    by (rule regime_retarget [OF collapsedEngine_fields(1,2,3) that])
  have "weightSum (fst (retarget collapsedEngine))
          = (\<Sum>i<NUM_BUFFERS. clamp (49 / 50 * targetWeights collapsedEngine i + 1 / 300 - 1 / 20) 0 1)"
    unfolding weightSum_eq by (rule sum.cong) (simp_all add: w)
  also have "\<dots> = 7 / 10"
    by (simp add: collapsedEngine_fields NUM_BUFFERS_def lessThan_Suc eval_nat_numeral clamp_def)
  finally have s: "weightSum (fst (retarget collapsedEngine)) = 7 / 10" .
  have w1: "fst (retarget collapsedEngine) 2 = 91 / 7500"
    by (simp add: w [OF i] collapsedEngine_fields NUM_BUFFERS_def clamp_def)
  show t: "targetWeights (updateProbabilityWeights collapsedEngine) 2 = 13 / 750"
    by (simp add: updateProbabilityWeights_weights(1) [OF i] w1 s)
  show v: "weightVelocity (updateProbabilityWeights collapsedEngine) 2 = - 28 / 1875"
    by (simp add: updateProbabilityWeights_weights(2) [OF i] t collapsedEngine_fields NUM_BUFFERS_def)
  show "probWeights (updateProbabilityWeights collapsedEngine) 2 = 1037 / 6250"
    by (simp add: updateProbabilityWeights_weights(3) [OF i] v collapsedEngine_fields NUM_BUFFERS_def)
qed

lemma low_target_vanishes:
  assumes "probabilityShape s = 49 / 100" "chaosAmount s = 1" "rngSeq s = zeroDraws"
    and "targetWeights s 2 \<le> 1 / 25"
  shows "targetWeights (updateProbabilityWeights s) 2 = 0"
    and "weightVelocity (updateProbabilityWeights s) 2
           = weightVelocity s 2 * (9 / 10) - probWeights s 2 * (1 / 10)"
    and "probWeights (updateProbabilityWeights s) 2
           = probWeights s 2
             + (weightVelocity s 2 * (9 / 10) - probWeights s 2 * (1 / 10)) * (5 / 100)"
proof -
  have i: "(2::nat) < NUM_BUFFERS" by (simp add: NUM_BUFFERS_def)
  have "49 / 50 * targetWeights s 2 + 1 / 300 - 1 / 20 \<le> 0"
    using assms(4) by simp
  then have "fst (retarget s) 2 = 0"
    unfolding regime_retarget [OF assms(1,2,3) i] by (simp add: clamp_def)
  then show t: "targetWeights (updateProbabilityWeights s) 2 = 0"
    by (simp add: updateProbabilityWeights_weights(1) [OF i])
  show v: "weightVelocity (updateProbabilityWeights s) 2
           = weightVelocity s 2 * (9 / 10) - probWeights s 2 * (1 / 10)"
    by (simp add: updateProbabilityWeights_weights(2) [OF i] t)
  show "probWeights (updateProbabilityWeights s) 2
           = probWeights s 2
             + (weightVelocity s 2 * (9 / 10) - probWeights s 2 * (1 / 10)) * (5 / 100)"
    by (simp add: updateProbabilityWeights_weights(3) [OF i] v)
qed

lemma relaxScaled_proj:
  "fst (relaxScaled x) = 180 * fst x - 20 * snd x"
  "snd (relaxScaled x) = 9 * fst x + 199 * snd x"
  by (cases x; simp)+

lemma relaxation_scaled:
  fixes a b d :: real
  assumes "probabilityShape s = 49 / 100" "chaosAmount s = 1" "rngSeq s = zeroDraws"
    and "targetWeights s 2 \<le> 1 / 25"
    and "weightVelocity s 2 = a / d" "probWeights s 2 = b / d" and "0 < d"
  shows "weightVelocity ((updateProbabilityWeights ^^ n) s) 2
           = fst ((relaxScaled ^^ n) (a, b)) / (d * 200 ^ n)
       \<and> probWeights ((updateProbabilityWeights ^^ n) s) 2
           = snd ((relaxScaled ^^ n) (a, b)) / (d * 200 ^ n)
       \<and> targetWeights ((updateProbabilityWeights ^^ n) s) 2 \<le> 1 / 25
       \<and> probabilityShape ((updateProbabilityWeights ^^ n) s) = 49 / 100
       \<and> chaosAmount ((updateProbabilityWeights ^^ n) s) = 1
       \<and> rngSeq ((updateProbabilityWeights ^^ n) s) = zeroDraws"
proof (induction n)
  case 0
  show ?case using assms by simp
next
  case (Suc n)
  let ?s = "(updateProbabilityWeights ^^ n) s"
  let ?ab = "(relaxScaled ^^ n) (a, b)"
  from Suc have r: "probabilityShape ?s = 49 / 100" "chaosAmount ?s = 1" "rngSeq ?s = zeroDraws"
    "targetWeights ?s 2 \<le> 1 / 25"
    and v: "weightVelocity ?s 2 = fst ?ab / (d * 200 ^ n)"
    and c: "probWeights ?s 2 = snd ?ab / (d * 200 ^ n)"
    by simp_all
  note step = low_target_vanishes [OF r]
  have d: "d * 200 ^ n \<noteq> 0" using assms(7) by simp
  have "weightVelocity (updateProbabilityWeights ?s) 2
          = (180 * fst ?ab - 20 * snd ?ab) / (d * 200 ^ Suc n)"
    unfolding step(2) v c using d by (simp add: field_simps)
  moreover have "probWeights (updateProbabilityWeights ?s) 2
          = (9 * fst ?ab + 199 * snd ?ab) / (d * 200 ^ Suc n)"
    unfolding step(3) v c using d by (simp add: field_simps)
  ultimately show ?case
    using step(1) r by (simp add: regime_keeps relaxScaled_proj)
qed

lemma relaxation_47:
  "snd ((relaxScaled ^^ 47) (- 280, 3111)) < 0"
  by (simp add: eval_nat_numeral)

lemma dataFromJson_constantVector:
  "dataFromJson (constantVector x) s =
     s\<lparr>probWeights := (\<lambda>i. if i < NUM_BUFFERS then x else probWeights s i),
       targetWeights := (\<lambda>i. if i < NUM_BUFFERS then x else targetWeights s i)\<rparr>"
proof -
  have "json_object_get (constantVector x) ''probWeights''
          = Some (JArray (replicate NUM_BUFFERS (JReal x)))"
    by (simp add: constantVector_def)
  from dataFromJson_present [OF this] show ?thesis
    by (intro engine.equality) (simp_all add: fun_eq_iff)
qed

lemma normalized_collapsedEngine: "normalized collapsedEngine"
  unfolding collapsedEngine_def
  by (rule normalized_handleQuantumCollapse)
    (simp_all add: normalized_def updateControls_def Let_def freshEngine_def constructed_closed
      list_all_iff NUM_BUFFERS_def zeroDraws_def)

lemma zeroedEngine_fields:
  "probabilityShape zeroedEngine = 49 / 100"
  "chaosAmount zeroedEngine = 1"
  "rngSeq zeroedEngine = zeroDraws"
  "targetWeights zeroedEngine = (\<lambda>i. 0)"
  "probWeights zeroedEngine = (\<lambda>i. 0)"
  by (simp_all add: zeroedEngine_def updateControls_def Let_def dataFromJson_constantVector
      freshEngine_def constructed_closed scenarioPorts_def clamp_def fun_eq_iff)

lemma zeroedEngine_divisor: "weightSum (fst (retarget zeroedEngine)) = 0"
proof -
  have "fst (retarget zeroedEngine) i = 0" if "i < NUM_BUFFERS" for i
    unfolding regime_retarget [OF zeroedEngine_fields(1,2,3) that]
    by (simp add: zeroedEngine_fields clamp_def)
  then show ?thesis by (simp add: weightSum_eq)
qed

text \<open>A cycle at shape 0 and chaos 0: every target becomes 1 / 6.\<close>

lemma flat_cycle:
  assumes "probabilityShape s = 0" "chaosAmount s = 0" "i < NUM_BUFFERS"
  shows "weightSum (fst (retarget s)) = 1"
    and "targetWeights (updateProbabilityWeights s) i = 1 / 6"
    and "weightVelocity (updateProbabilityWeights s) i
           = weightVelocity s i * (9 / 10) + (1 / 6 - probWeights s i) * (1 / 10)"
    and "probWeights (updateProbabilityWeights s) i
           = probWeights s i
             + (weightVelocity s i * (9 / 10) + (1 / 6 - probWeights s i) * (1 / 10)) * (5 / 100)"
proof -
  have w: "fst (retarget s) j = 1 / 6" if "j < NUM_BUFFERS" for j
    using that
    by (simp add: retarget_closed shapeBranch_def uniformBranch_closed assms(1,2) clamp_def
        NUM_BUFFERS_def)
  have "weightSum (fst (retarget s)) = (\<Sum>j<NUM_BUFFERS. 1 / 6)"
    unfolding weightSum_eq by (rule sum.cong) (simp_all add: w)
  then show s: "weightSum (fst (retarget s)) = 1"
    by (simp add: NUM_BUFFERS_def)
  show t: "targetWeights (updateProbabilityWeights s) i = 1 / 6"
    by (simp add: updateProbabilityWeights_weights(1) [OF assms(3)] w [OF assms(3)] s)
  show v: "weightVelocity (updateProbabilityWeights s) i
           = weightVelocity s i * (9 / 10) + (1 / 6 - probWeights s i) * (1 / 10)"
    by (simp add: updateProbabilityWeights_weights(2) [OF assms(3)] t)
  show "probWeights (updateProbabilityWeights s) i
           = probWeights s i
             + (weightVelocity s i * (9 / 10) + (1 / 6 - probWeights s i) * (1 / 10)) * (5 / 100)"
    by (simp add: updateProbabilityWeights_weights(3) [OF assms(3)] v)
qed

lemma onesEngine_fields:
  "probabilityShape onesEngine = 0"
  "chaosAmount onesEngine = 0"
  "i < NUM_BUFFERS \<Longrightarrow> probWeights onesEngine i = 1"
  "weightVelocity onesEngine i = 0"
  by (simp_all add: onesEngine_def updateControls_def Let_def dataFromJson_constantVector
      freshEngine_def constructed_closed scenarioPorts_def clamp_def)

lemma onesEngine_cycle:
  "weightSum (fst (retarget onesEngine)) = 1"
  "(\<Sum>i<NUM_BUFFERS. probWeights (updateProbabilityWeights onesEngine) i) = 239 / 40"
proof -
  show "weightSum (fst (retarget onesEngine)) = 1"
    by (rule flat_cycle(1) [OF onesEngine_fields(1,2), of 0]) (simp add: NUM_BUFFERS_def)
  have "(\<Sum>i<NUM_BUFFERS. probWeights (updateProbabilityWeights onesEngine) i)
          = (\<Sum>i<NUM_BUFFERS. 239 / 240)"
    by (rule sum.cong) (simp_all add: flat_cycle(4) [OF onesEngine_fields(1,2)] onesEngine_fields)
  then show "(\<Sum>i<NUM_BUFFERS. probWeights (updateProbabilityWeights onesEngine) i) = 239 / 40"
    by (simp add: NUM_BUFFERS_def)
qed

lemma reloadedEngine_fields:
  "probabilityShape reloadedEngine = 0"
  "chaosAmount reloadedEngine = 0"
  "i < NUM_BUFFERS \<Longrightarrow> probWeights reloadedEngine i = 1 / 6"
  "i < NUM_BUFFERS \<Longrightarrow> targetWeights reloadedEngine i = 1 / 6"
  "i < NUM_BUFFERS \<Longrightarrow> weightVelocity reloadedEngine i = - (1 / 12)"
proof -
  have k: "probabilityShape (updateProbabilityWeights onesEngine) = 0"
    "chaosAmount (updateProbabilityWeights onesEngine) = 0"
    by (simp_all add: regime_keeps onesEngine_fields)
  show "probabilityShape reloadedEngine = 0" "chaosAmount reloadedEngine = 0"
    "i < NUM_BUFFERS \<Longrightarrow> probWeights reloadedEngine i = 1 / 6"
    "i < NUM_BUFFERS \<Longrightarrow> targetWeights reloadedEngine i = 1 / 6"
    by (simp_all add: reloadedEngine_def dataFromJson_constantVector k)
  show "weightVelocity reloadedEngine i = - (1 / 12)" if "i < NUM_BUFFERS"
    by (simp add: reloadedEngine_def dataFromJson_constantVector
        flat_cycle(3) [OF onesEngine_fields(1,2) that] onesEngine_fields that)
qed

lemma reloadedEngine_cycle:
  "list_all (\<lambda>i. 0 \<le> targetWeights reloadedEngine i) [0..<NUM_BUFFERS]"
  "(\<Sum>i<NUM_BUFFERS. targetWeights reloadedEngine i) = 1"
  "(\<Sum>i<NUM_BUFFERS. probWeights reloadedEngine i) = 1"
  "(\<Sum>i<NUM_BUFFERS. probWeights (updateProbabilityWeights reloadedEngine) i) = 391 / 400"
proof -
  show "list_all (\<lambda>i. 0 \<le> targetWeights reloadedEngine i) [0..<NUM_BUFFERS]"
    by (simp add: list_all_iff reloadedEngine_fields)
  have "(\<Sum>i<NUM_BUFFERS. targetWeights reloadedEngine i) = (\<Sum>i<NUM_BUFFERS. 1 / 6)"
    by (rule sum.cong) (simp_all add: reloadedEngine_fields)
  then show "(\<Sum>i<NUM_BUFFERS. targetWeights reloadedEngine i) = 1"
    by (simp add: NUM_BUFFERS_def)
  have "(\<Sum>i<NUM_BUFFERS. probWeights reloadedEngine i) = (\<Sum>i<NUM_BUFFERS. 1 / 6)"
    by (rule sum.cong) (simp_all add: reloadedEngine_fields)
  then show "(\<Sum>i<NUM_BUFFERS. probWeights reloadedEngine i) = 1"
    by (simp add: NUM_BUFFERS_def)
  have "(\<Sum>i<NUM_BUFFERS. probWeights (updateProbabilityWeights reloadedEngine) i)
          = (\<Sum>i<NUM_BUFFERS. 391 / 2400)"
    by (rule sum.cong)
      (simp_all add: flat_cycle(4) [OF reloadedEngine_fields(1,2)] reloadedEngine_fields)
  then show "(\<Sum>i<NUM_BUFFERS. probWeights (updateProbabilityWeights reloadedEngine) i) = 391 / 400"
    by (simp add: NUM_BUFFERS_def)
qed

lemma collapsedEngine_overshoot:
  "probWeights ((updateProbabilityWeights ^^ 48) collapsedEngine) 2 < 0"
proof -
  let ?s = "updateProbabilityWeights collapsedEngine"
  have r: "probabilityShape ?s = 49 / 100" "chaosAmount ?s = 1" "rngSeq ?s = zeroDraws"
    by (simp_all add: regime_keeps collapsedEngine_fields)
  have t: "targetWeights ?s 2 \<le> 1 / 25"
    by (simp add: first_cycle)
  have v: "weightVelocity ?s 2 = - 280 / 18750" "probWeights ?s 2 = 3111 / 18750"
    by (simp_all add: first_cycle)
  have d: "(0::real) < 18750" by simp
  note k = relaxation_scaled [OF r t v d, of 47, THEN conjunct2, THEN conjunct1]
  have "(48::nat) = Suc 47" by simp
  then have "(updateProbabilityWeights ^^ 48) collapsedEngine = (updateProbabilityWeights ^^ 47) ?s"
    by (simp only: funpow.simps o_apply funpow_swap1)
  then have "probWeights ((updateProbabilityWeights ^^ 48) collapsedEngine) 2
               = snd ((relaxScaled ^^ 47) (- 280, 3111)) / (18750 * 200 ^ 47)"
    using k by simp
  also have "\<dots> < 0"
    using relaxation_47 by (intro divide_neg_pos) simp_all
  finally show ?thesis .
qed

section \<open>The claims\<close>

subsection \<open>Output boundedness\<close>

text \<open>
  C1. Output boundedness. For every call of \<^verbatim>\<open>process\<close> whose input sample lies in
  \<open>[-10, 10]\<close> and whose dry/wet mix (the value the call mixes with, that is the one it
  leaves in \<open>dryWetMix\<close>) lies in \<open>[0, 1]\<close>, the output sample is the blend
  \<open>input * (1 - mix) + wet * mix\<close> of the input and the accumulated wet signal clamped
  to \<open>[-10, 10]\<close>, and lies in \<open>[-10, 10]\<close>.
\<close>

theorem process_output_bounded:
  assumes "- 10 \<le> audioInput p" and "audioInput p \<le> 10"
    and "0 \<le> dryWetMix (process p s)" and "dryWetMix (process p s) \<le> 1"
  shows "audioOutput (process p s)
           = audioInput p * (1 - dryWetMix (process p s))
             + clamp (fst (readBuffers (writeInput (audioInput p) (controlStep p s)))) (- 10) 10
               * dryWetMix (process p s)
         \<and> - 10 \<le> audioOutput (process p s) \<and> audioOutput (process p s) \<le> 10"
proof -
  let ?wet = "clamp (fst (readBuffers (writeInput (audioInput p) (controlStep p s)))) (- 10) 10"
  have mix: "dryWetMix (process p s) = dryWetMix (controlStep p s)"
    by (simp add: process_def audioStep_keeps)
  have out: "audioOutput (process p s)
               = audioInput p * (1 - dryWetMix (process p s)) + ?wet * dryWetMix (process p s)"
    by (simp add: mix) (simp add: process_def audioStep_output)
  have wet: "- 10 \<le> ?wet" "?wet \<le> 10"
    using clamp_bounds [of "- 10" 10] by simp_all
  from convex_blend_bounded [OF assms(1,2) wet assms(3,4)] out
  show ?thesis by simp
qed

theorem process_output_bounded_witness:
  "- 10 \<le> audioInput scenarioPorts \<and> audioInput scenarioPorts \<le> 10
   \<and> 0 \<le> dryWetMix (process scenarioPorts freshEngine)
   \<and> dryWetMix (process scenarioPorts freshEngine) \<le> 1
   \<and> - 10 \<le> audioOutput (process scenarioPorts freshEngine)
   \<and> audioOutput (process scenarioPorts freshEngine) \<le> 10"
proof -
  have i: "- 10 \<le> audioInput scenarioPorts" "audioInput scenarioPorts \<le> 10"
    by (simp_all add: scenarioPorts_def)
  have m: "0 \<le> dryWetMix (process scenarioPorts freshEngine)"
    "dryWetMix (process scenarioPorts freshEngine) \<le> 1"
    by (simp_all add: process_dryWetMix freshEngine_def constructed_closed)
  from process_output_bounded [OF i m] i m show ?thesis by simp
qed

subsection \<open>Weight normalization\<close>

text \<open>
  C2, as amended. Take an engine whose target weights sum to 1, whose current weights
  sum to 1 and whose velocities sum to 0 (so it is after construction, and a cycle and a
  collapse keep it so; an import need not), a shape and a chaos in \<open>[0, 1]\<close> and draws
  in \<open>[0, 1)\<close>. Then in \<^verbatim>\<open>updateProbabilityWeights\<close> both divisors, the total of the
  peaked distribution and the sum of the weights after the chaos loop, are strictly
  positive, and afterwards the targets are non-negative and sum to 1, the velocities sum
  to 0, and the current weights sum to exactly 1 in exact arithmetic. (The entries of the
  current vector need not be non-negative.)
\<close>

theorem updateProbabilityWeights_normalized:
  assumes "(\<Sum>i<NUM_BUFFERS. targetWeights s i) = 1"
    and "(\<Sum>i<NUM_BUFFERS. probWeights s i) = 1"
    and "(\<Sum>i<NUM_BUFFERS. weightVelocity s i) = 0"
    and "0 \<le> probabilityShape s" and "probabilityShape s \<le> 1"
    and "0 \<le> chaosAmount s" and "chaosAmount s \<le> 1"
    and "\<forall>n. 0 \<le> rngSeq s n \<and> rngSeq s n < 1"
  shows "(\<forall>c k. 0 < snd (peakedFill c k))
       \<and> 0 < weightSum (fst (retarget s))
       \<and> normalized (updateProbabilityWeights s)"
proof -
  from assms(8) have r: "\<And>n. 0 \<le> rngSeq s n" by simp
  have "0 < weightSum (fst (retarget s))"
    by (rule retarget_sum_pos(1) [OF assms(1,6,7) r])
  moreover have "normalized (updateProbabilityWeights s)"
    by (rule updateProbabilityWeights_keeps_normalized [OF assms(1,2,3,6,7) r])
  ultimately show ?thesis
    by (simp add: peakedFill_total_pos)
qed

text \<open>
  The witness is the engine after a collapse on buffer 0, at shape 0.49 and chaos 1:
  the cycle moves the target of buffer 2 from 0.06 to 13/750 and its current weight from
  1/6 to 1037/6250.
\<close>

theorem updateProbabilityWeights_normalized_witness:
  "(\<Sum>i<NUM_BUFFERS. targetWeights collapsedEngine i) = 1
   \<and> (\<Sum>i<NUM_BUFFERS. probWeights collapsedEngine i) = 1
   \<and> (\<Sum>i<NUM_BUFFERS. weightVelocity collapsedEngine i) = 0
   \<and> 0 \<le> probabilityShape collapsedEngine \<and> probabilityShape collapsedEngine \<le> 1
   \<and> 0 \<le> chaosAmount collapsedEngine \<and> chaosAmount collapsedEngine \<le> 1
   \<and> (\<forall>n. 0 \<le> rngSeq collapsedEngine n \<and> rngSeq collapsedEngine n < 1)
   \<and> 0 < weightSum (fst (retarget collapsedEngine))
   \<and> normalized (updateProbabilityWeights collapsedEngine)
   \<and> targetWeights collapsedEngine 2 = 3 / 50
   \<and> targetWeights (updateProbabilityWeights collapsedEngine) 2 = 13 / 750
   \<and> probWeights collapsedEngine 2 = 1 / 6
   \<and> probWeights (updateProbabilityWeights collapsedEngine) 2 = 1037 / 6250"
proof -
  have n: "(\<Sum>i<NUM_BUFFERS. targetWeights collapsedEngine i) = 1"
    "(\<Sum>i<NUM_BUFFERS. probWeights collapsedEngine i) = 1"
    "(\<Sum>i<NUM_BUFFERS. weightVelocity collapsedEngine i) = 0"
    using normalized_collapsedEngine by (simp_all add: normalized_def)
  have h: "0 \<le> probabilityShape collapsedEngine" "probabilityShape collapsedEngine \<le> 1"
    "0 \<le> chaosAmount collapsedEngine" "chaosAmount collapsedEngine \<le> 1"
    "\<forall>n. 0 \<le> rngSeq collapsedEngine n \<and> rngSeq collapsedEngine n < 1"
    by (simp_all add: collapsedEngine_fields zeroDraws_def)
  have b: "targetWeights collapsedEngine 2 = 3 / 50" "probWeights collapsedEngine 2 = 1 / 6"
    by (simp_all add: collapsedEngine_fields NUM_BUFFERS_def)
  from updateProbabilityWeights_normalized [OF n h] n h b first_cycle(1,3) show ?thesis by blast
qed

text \<open>
  The claim as stated fails in two ways. The entries of the current vector can become
  negative although the three sums are right: after the collapse above, with a generator
  that always returns 0, the target of buffer 2 is 0 from the second cycle on, the filter
  overshoots, and after 48 cycles the current weight of buffer 2 is about -0.00066. And
  the three sums need not be right: after the import of six zeros, at shape 0.49 and
  chaos 1, every weight of the chaos loop is \<open>clamp (1/300 - 1/20) = 0\<close> and the divisor
  is 0; after the import of six ones, at shape 0 and chaos 0, the divisor is 1 and the
  current weights sum to 239/40 after the cycle; and after the import of six times 1/6 into that engine
  (the targets and the current weights sum to 1, the velocities do not sum to 0) they sum
  to 391/400.
\<close>

theorem weight_normalization_counterexample:
  "normalized collapsedEngine
   \<and> probabilityShape collapsedEngine = 49 / 100 \<and> chaosAmount collapsedEngine = 1
   \<and> rngSeq collapsedEngine = zeroDraws
   \<and> probWeights ((updateProbabilityWeights ^^ 48) collapsedEngine) 2 < 0
   \<and> probabilityShape zeroedEngine = 49 / 100 \<and> chaosAmount zeroedEngine = 1
   \<and> rngSeq zeroedEngine = zeroDraws
   \<and> weightSum (fst (retarget zeroedEngine)) = 0
   \<and> probabilityShape onesEngine = 0 \<and> chaosAmount onesEngine = 0
   \<and> weightSum (fst (retarget onesEngine)) = 1
   \<and> (\<Sum>i<NUM_BUFFERS. probWeights (updateProbabilityWeights onesEngine) i) = 239 / 40
   \<and> probabilityShape reloadedEngine = 0 \<and> chaosAmount reloadedEngine = 0
   \<and> list_all (\<lambda>i. 0 \<le> targetWeights reloadedEngine i) [0..<NUM_BUFFERS]
   \<and> (\<Sum>i<NUM_BUFFERS. targetWeights reloadedEngine i) = 1
   \<and> (\<Sum>i<NUM_BUFFERS. probWeights reloadedEngine i) = 1
   \<and> (\<Sum>i<NUM_BUFFERS. probWeights (updateProbabilityWeights reloadedEngine) i) = 391 / 400"
  using normalized_collapsedEngine collapsedEngine_fields(1,2,3) collapsedEngine_overshoot
    zeroedEngine_fields(1,2,3) zeroedEngine_divisor onesEngine_fields(1,2) onesEngine_cycle
    reloadedEngine_fields(1,2) reloadedEngine_cycle
  by blast

subsection \<open>Read cursors\<close>

text \<open>
  C3. The claim: at all times the read cursor of every buffer is
  \<open>(writeIndex - \<lfloor>delayLength\<rfloor> + capacity) mod capacity\<close>, and it never meets the
  write cursor. The code sets the read cursors so at a control tick, one to
  \<open>capacity - 1\<close> positions behind the write cursor, but it never advances them, while
  the write cursor advances in every call. The theorem runs a fresh engine on the scenario
  ports with the spread fully open and no chaos. The 64th call, a control tick at write
  cursor 63, gives buffer 5 the delay 15999 and the read cursor 64, and moves the write
  cursor to 64, where the equation asks for the read cursor 65. In the 65th call the read
  cursor of buffer 5 is the write cursor, and the position it reads holds the sample that
  this call has just written.
\<close>

theorem read_cursor_collision:
  "reachable ((process widePorts ^^ 64) freshEngine)
   \<and> writeIndex ((process widePorts ^^ 64) freshEngine) = 64
   \<and> delayTimes ((process widePorts ^^ 64) freshEngine) 5 = 15999
   \<and> readIndices ((process widePorts ^^ 64) freshEngine) 5 = 64
   \<and> (writeIndex ((process widePorts ^^ 64) freshEngine)
        - \<lfloor>delayTimes ((process widePorts ^^ 64) freshEngine) 5\<rfloor> + BUFFER_SIZE) mod BUFFER_SIZE
       = 65
   \<and> readIndices (controlStep widePorts ((process widePorts ^^ 64) freshEngine)) 5
       = writeIndex (controlStep widePorts ((process widePorts ^^ 64) freshEngine))
   \<and> delayBuffers
         (writeInput (audioInput widePorts)
            (controlStep widePorts ((process widePorts ^^ 64) freshEngine)))
         5 (readIndices (controlStep widePorts ((process widePorts ^^ 64) freshEngine)) 5)
       = audioInput widePorts"
proof -
  let ?s = "(process widePorts ^^ 63) freshEngine"
  let ?t = "(process widePorts ^^ 64) freshEngine"
  let ?c = "controlStep widePorts ?t"
  have e: "controlDivider ?s = 63" "writeIndex ?s = 63"
    using early_calls [of 63 widePorts zeroDraws] by (simp_all add: freshEngine_def)
  have "(64::nat) = Suc 63" by simp
  then have t: "?t = process widePorts ?s"
    by (simp only: funpow.simps o_apply)
  note k = widePorts_tick [OF e, folded t]
  have reach: "reachable ?t"
    unfolding freshEngine_def by (rule reachable_funpow)
  have f: "(writeIndex ?t - \<lfloor>delayTimes ?t 5\<rfloor> + BUFFER_SIZE) mod BUFFER_SIZE = 65"
    by (simp add: k BUFFER_SIZE_eq)
  have idle: "controlDivider ?t + 1 < 64" by (simp add: k)
  have r: "readIndices ?c 5 = 64"
    by (simp add: controlStep_cursors controlTick_idle [OF idle] k)
  have w: "writeIndex ?c = 64"
    by (simp add: controlStep_cursors k)
  have b: "delayBuffers (writeInput (audioInput widePorts) ?c) 5 (readIndices ?c 5)
             = audioInput widePorts"
    by (simp add: writeInput_closed r w NUM_BUFFERS_def)
  from reach k f r w b show ?thesis by simp
qed

subsection \<open>Delay lengths\<close>

text \<open>
  C4, as amended. For every buffer index \<open>i\<close> with \<open>t = i / (N - 1)\<close>,
  \<^verbatim>\<open>updateDelayTimes\<close> computes
  \<open>minSamples + t * (maxSamples - minSamples) * spread\<close> plus the jitter
  \<open>(random - 0.5) * sampleRate * 0.005 * chaos\<close> and clamps it to
  \<open>[1, capacity - 1]\<close>, where \<open>minSamples\<close> is 10 and \<open>maxSamples\<close> is the base
  delay mapped through 0 to 2000 ms at the sample rate and then clamped to
  \<open>[minSamples, capacity - 1]\<close>. So every delay length lies in \<open>[1, capacity - 1]\<close>,
  whatever the controls, the draws and the sample rate.
\<close>

theorem updateDelayTimes_bounds:
  assumes "i < NUM_BUFFERS"
  shows "delayTimes (updateDelayTimes sr s) i
           = clamp (10 + real i / real (NUM_BUFFERS - 1)
                      * ((clamp (baseDelayTime s * 2000 / 1000 * sr) 10 (real_of_int (BUFFER_SIZE - 1)) - 10)
                         * spreadAmount s)
                    + (rngSeq s (rngPos s + i) - 1 / 2) * sr * (5 / 1000) * chaosAmount s)
               1 (real_of_int (BUFFER_SIZE - 1))
       \<and> 1 \<le> delayTimes (updateDelayTimes sr s) i
       \<and> delayTimes (updateDelayTimes sr s) i \<le> real_of_int (BUFFER_SIZE - 1)"
proof -
  have "(1::real) \<le> real_of_int (BUFFER_SIZE - 1)"
    by (simp add: BUFFER_SIZE_eq)
  from clamp_bounds [OF this] assms show ?thesis
    by (simp add: updateDelayTimes_closed Let_def)
qed

theorem updateDelayTimes_bounds_witness:
  "(5::nat) < NUM_BUFFERS
   \<and> delayTimes (updateDelayTimes 48000 freshEngine) 5 = 15985 / 2
   \<and> 1 \<le> delayTimes (updateDelayTimes 48000 freshEngine) 5
   \<and> delayTimes (updateDelayTimes 48000 freshEngine) 5 \<le> real_of_int (BUFFER_SIZE - 1)"
proof -
  have h: "(5::nat) < NUM_BUFFERS" by (simp add: NUM_BUFFERS_def)
  from updateDelayTimes_bounds [OF h, of 48000 freshEngine] h show ?thesis
    by (simp add: freshEngine_def constructed_closed zeroDraws_def BUFFER_SIZE_eq clamp_def
        NUM_BUFFERS_def)
qed

text \<open>
  Without the clamp of \<open>maxSamples\<close> the formula gives another delay length: on a fresh
  engine (base 0.5, spread 0.5, chaos 0.1, draws 0) at 48 kHz, \<^verbatim>\<open>updateDelayTimes\<close>
  gives buffer 5 a delay of 7992.5 samples, the formula of the specification 15999.
\<close>

theorem updateDelayTimes_spec_counterexample:
  "delayTimes (updateDelayTimes 48000 freshEngine) 5
     \<noteq> specDelayTime (baseDelayTime freshEngine) (spreadAmount freshEngine)
         (chaosAmount freshEngine) 48000 (rngSeq freshEngine (rngPos freshEngine + 5)) 5"
  by (simp add: updateDelayTimes_closed specDelayTime_def Let_def freshEngine_def
      constructed_closed zeroDraws_def BUFFER_SIZE_eq clamp_def NUM_BUFFERS_def)

subsection \<open>The collapse\<close>

text \<open>
  C5. Collapse. When the trigger fires (it was low and the input is at or above 2.0) and
  the generator returns \<open>r\<close> in \<open>[0, 1)\<close>, the check sets the target of buffer
  \<open>k = \<lfloor>r * NUM_BUFFERS\<rfloor>\<close> to 0.7 and the target of every other buffer to
  \<open>0.3 / (NUM_BUFFERS - 1)\<close>; \<open>k\<close> is the buffer whose interval
  \<open>[k / NUM_BUFFERS, (k + 1) / NUM_BUFFERS)\<close> holds \<open>r\<close>, so that a uniform \<open>r\<close>
  chooses uniformly; and the indicator is 1.
\<close>

theorem collapse_sets_targets:
  assumes "\<not> collapseTrigger s" and "2 \<le> collapseTriggerInput p"
    and "0 \<le> rngSeq s (rngPos s)" and "rngSeq s (rngPos s) < 1"
  shows "nat \<lfloor>rngSeq s (rngPos s) * real NUM_BUFFERS\<rfloor> < NUM_BUFFERS
       \<and> targetWeights (collapseCheck p s) (nat \<lfloor>rngSeq s (rngPos s) * real NUM_BUFFERS\<rfloor>) = 7 / 10
       \<and> (\<forall>j<NUM_BUFFERS. j \<noteq> nat \<lfloor>rngSeq s (rngPos s) * real NUM_BUFFERS\<rfloor> \<longrightarrow>
             targetWeights (collapseCheck p s) j = (3 / 10) / real (NUM_BUFFERS - 1))
       \<and> (\<forall>j<NUM_BUFFERS. (nat \<lfloor>rngSeq s (rngPos s) * real NUM_BUFFERS\<rfloor> = j)
             = (real j / real NUM_BUFFERS \<le> rngSeq s (rngPos s)
                \<and> rngSeq s (rngPos s) < real (Suc j) / real NUM_BUFFERS))
       \<and> collapseLight (collapseCheck p s) = 1"
proof -
  let ?r = "rngSeq s (rngPos s)"
  let ?k = "nat \<lfloor>?r * real NUM_BUFFERS\<rfloor>"
  note d = dominantBuffer_range [OF assms(3,4)]
  have fired: "fst (schmittProcess (collapseTrigger s) (collapseTriggerInput p) (1 / 10) 2)"
    using assms(1,2) by (simp add: schmittProcess_def)
  have "0 \<le> \<lfloor>?r * real NUM_BUFFERS\<rfloor>" "\<lfloor>?r * real NUM_BUFFERS\<rfloor> < int NUM_BUFFERS"
    using d by simp_all
  then have k: "?k < NUM_BUFFERS" by (simp add: nat_less_iff)
  have idx: "(int j = truncate_int (?r * real NUM_BUFFERS)) = (j = ?k)" for j
    using d by auto
  have tw: "targetWeights (collapseCheck p s) j
              = (if j = ?k then 7 / 10 else (1 - 7 / 10) / real (NUM_BUFFERS - 1))"
    if "j < NUM_BUFFERS" for j
    using that by (simp add: collapseCheck_fired [OF fired] handleQuantumCollapse_closed idx)
  have iv: "(?k = j) = (real j / real NUM_BUFFERS \<le> ?r \<and> ?r < real (Suc j) / real NUM_BUFFERS)" for j
  proof -
    have "(?k = j) = (\<lfloor>?r * real NUM_BUFFERS\<rfloor> = int j)"
      using d by auto
    also have "\<dots> = (real j \<le> ?r * real NUM_BUFFERS \<and> ?r * real NUM_BUFFERS < real j + 1)"
      by (simp add: floor_eq_iff)
    also have "\<dots> = (real j / real NUM_BUFFERS \<le> ?r \<and> ?r < real (Suc j) / real NUM_BUFFERS)"
      by (simp add: NUM_BUFFERS_def field_simps)
    finally show ?thesis .
  qed
  have cl: "collapseLight (collapseCheck p s) = 1"
    by (simp add: collapseCheck_fired [OF fired] handleQuantumCollapse_closed)
  from k tw iv cl show ?thesis by simp
qed

theorem collapse_sets_targets_witness:
  "\<not> collapseTrigger (freshEngine\<lparr>collapseTrigger := False\<rparr>)
   \<and> 2 \<le> collapseTriggerInput (scenarioPorts\<lparr>collapseTriggerInput := 5\<rparr>)
   \<and> 0 \<le> zeroDraws 0 \<and> zeroDraws 0 < 1
   \<and> targetWeights (collapseCheck (scenarioPorts\<lparr>collapseTriggerInput := 5\<rparr>)
         (freshEngine\<lparr>collapseTrigger := False\<rparr>)) 0 = 7 / 10
   \<and> targetWeights (collapseCheck (scenarioPorts\<lparr>collapseTriggerInput := 5\<rparr>)
         (freshEngine\<lparr>collapseTrigger := False\<rparr>)) 1 = 3 / 50
   \<and> targetWeights (collapseCheck (scenarioPorts\<lparr>collapseTriggerInput := 5\<rparr>)
         (freshEngine\<lparr>collapseTrigger := False\<rparr>)) 5 = 3 / 50
   \<and> collapseLight (collapseCheck (scenarioPorts\<lparr>collapseTriggerInput := 5\<rparr>)
         (freshEngine\<lparr>collapseTrigger := False\<rparr>)) = 1"
proof -
  let ?s = "freshEngine\<lparr>collapseTrigger := False\<rparr>"
  let ?p = "scenarioPorts\<lparr>collapseTriggerInput := 5\<rparr>"
  have h: "\<not> collapseTrigger ?s" "2 \<le> collapseTriggerInput ?p"
    "0 \<le> rngSeq ?s (rngPos ?s)" "rngSeq ?s (rngPos ?s) < 1"
    by (simp_all add: freshEngine_def constructed_closed zeroDraws_def)
  have z: "rngSeq ?s (rngPos ?s) = 0" "zeroDraws 0 = 0"
    by (simp_all add: freshEngine_def constructed_closed zeroDraws_def)
  have k0: "nat \<lfloor>(0::real) * real NUM_BUFFERS\<rfloor> = 0" by simp
  note t = collapse_sets_targets [OF h, unfolded z k0]
  note a = t [THEN conjunct2, THEN conjunct1]
  note others = t [THEN conjunct2, THEN conjunct2, THEN conjunct1, rule_format]
  have b: "targetWeights (collapseCheck ?p ?s) 1 = 3 / 50"
    "targetWeights (collapseCheck ?p ?s) 5 = 3 / 50"
    using others [of 1] others [of 5] by (simp_all add: NUM_BUFFERS_def)
  note c = t [THEN conjunct2, THEN conjunct2, THEN conjunct2, THEN conjunct2]
  from a b c h show ?thesis by (simp add: z)
qed

subsection \<open>The decay of the indicator\<close>

text \<open>
  C6. Starting from an indicator of 1, after one second of samples at a sample rate of
  \<open>R\<close> per second, with no collapse in between (\<open>R\<close> calls of \<^verbatim>\<open>process\<close>, each
  applying \<^verbatim>\<open>indicator -= indicator / R * 5\<close>), the indicator is approximately
  \<open>exp (-5)\<close>, whatever the rate: for every \<open>R \<ge> 10\<close>, so for every audio rate, it is at
  most \<open>exp (-5)\<close> and at least \<open>exp (-5) * (1 - 50 / R)\<close>, a relative error of at most
  \<open>50 / R\<close>, about 0.1 percent at 48 kHz.
\<close>

theorem indicator_after_one_second:
  assumes "10 \<le> R" and "sampleRate p = real R" and "collapseTriggerInput p < 2"
    and "collapseLight s = 1"
  shows "exp (- 5) * (1 - 50 / real R) \<le> collapseLight ((process p ^^ R) s)
       \<and> collapseLight ((process p ^^ R) s) \<le> exp (- 5)"
proof -
  have "collapseLight ((process p ^^ R) s) = (1 - 5 / real R) ^ R"
    by (simp add: funpow_process_decay [OF assms(3)] assms(2,4))
  moreover have "5 \<le> R" using assms(1) by simp
  ultimately show ?thesis
    using euler_decay_lower [OF assms(1)] euler_decay_upper [of R] by simp
qed

theorem indicator_after_one_second_witness:
  "(10::nat) \<le> 48000 \<and> sampleRate scenarioPorts = real 48000
   \<and> collapseTriggerInput scenarioPorts < 2
   \<and> collapseLight (handleQuantumCollapse freshEngine) = 1
   \<and> exp (- 5) * (1 - 50 / real 48000)
        \<le> collapseLight ((process scenarioPorts ^^ 48000) (handleQuantumCollapse freshEngine))
   \<and> collapseLight ((process scenarioPorts ^^ 48000) (handleQuantumCollapse freshEngine))
        \<le> exp (- 5)"
proof -
  have h: "(10::nat) \<le> 48000" "sampleRate scenarioPorts = real 48000"
    "collapseTriggerInput scenarioPorts < 2"
    "collapseLight (handleQuantumCollapse freshEngine) = 1"
    by (simp_all add: scenarioPorts_def handleQuantumCollapse_closed)
  from indicator_after_one_second [OF h] h show ?thesis by blast
qed

subsection \<open>The round trip of the weights\<close>

text \<open>
  C7. Round trip. Whatever the engine \<open>s'\<close> has become, importing into it what
  \<^verbatim>\<open>dataToJson\<close> exported from the engine \<open>s\<close> leaves every one of the
  \<open>NUM_BUFFERS\<close> current weights and target weights equal to the exported current
  weight of \<open>s\<close>.
\<close>

theorem persistence_round_trip:
  assumes "i < NUM_BUFFERS"
  shows "probWeights (dataFromJson (dataToJson s) s') i = probWeights s i
       \<and> targetWeights (dataFromJson (dataToJson s) s') i = probWeights s i"
  using assms by (simp add: dataToJson_closed dataFromJson_present)

theorem persistence_round_trip_witness:
  "(2::nat) < NUM_BUFFERS
   \<and> probWeights (dataFromJson (dataToJson freshEngine)
        (freshEngine\<lparr>probWeights := (\<lambda>i. 0), targetWeights := (\<lambda>i. 1)\<rparr>)) 2 = 1 / 6
   \<and> targetWeights (dataFromJson (dataToJson freshEngine)
        (freshEngine\<lparr>probWeights := (\<lambda>i. 0), targetWeights := (\<lambda>i. 1)\<rparr>)) 2 = 1 / 6"
proof -
  have h: "(2::nat) < NUM_BUFFERS" by (simp add: NUM_BUFFERS_def)
  from persistence_round_trip [OF h, of freshEngine
      "freshEngine\<lparr>probWeights := (\<lambda>i. 0), targetWeights := (\<lambda>i. 1)\<rparr>"] h
  show ?thesis by (simp add: freshEngine_def constructed_closed NUM_BUFFERS_def)
qed

subsection \<open>A malformed weight vector\<close>

text \<open>
  C8, as amended. \<^verbatim>\<open>dataFromJson\<close> leaves the engine as it was when the key
  \<^verbatim>\<open>probWeights\<close> is missing or its value is not an array. When it is an array,
  the entries it has, among the first \<open>NUM_BUFFERS\<close>, overwrite the current and the
  target weight (an element that is not a real is read as 0); the entries past its end
  keep their values, and no other field changes.
\<close>

theorem dataFromJson_restores:
  "dataFromJson rootJ s =
     (case json_object_get rootJ ''probWeights'' of
        Some (JArray xs) \<Rightarrow>
          s\<lparr>probWeights := (\<lambda>i. if i < min NUM_BUFFERS (length xs)
                                 then json_real_value (xs ! i) else probWeights s i),
            targetWeights := (\<lambda>i. if i < min NUM_BUFFERS (length xs)
                                   then json_real_value (xs ! i) else targetWeights s i)\<rparr>
      | _ \<Rightarrow> s)"
proof (cases "json_object_get rootJ ''probWeights''")
  case None
  then show ?thesis by (simp add: dataFromJson_missing)
next
  case (Some weightsJ)
  show ?thesis
  proof (cases "\<exists>xs. weightsJ = JArray xs")
    case True
    then obtain xs where xs: "weightsJ = JArray xs" by blast
    show ?thesis
      unfolding dataFromJson_present [OF Some] Some xs
      by (rule engine.equality) (auto simp add: fun_eq_iff)
  next
    case False
    then have "dataFromJson rootJ s = s"
      by (intro dataFromJson_not_array [OF Some]) blast
    with Some False show ?thesis
      by (cases weightsJ) simp_all
  qed
qed

text \<open>
  The claim as stated fails on a vector that is too short: importing the one-element
  array \<open>[1.0]\<close> into a fresh engine overwrites the first weight and its target, and
  leaves the other five.
\<close>

theorem dataFromJson_malformed_counterexample:
  "probWeights (dataFromJson (JObject [(''probWeights'', JArray [JReal 1])]) freshEngine) 0
     \<noteq> probWeights freshEngine 0
   \<and> probWeights (dataFromJson (JObject [(''probWeights'', JArray [JReal 1])]) freshEngine) 0 = 1
   \<and> targetWeights (dataFromJson (JObject [(''probWeights'', JArray [JReal 1])]) freshEngine) 0 = 1
   \<and> probWeights freshEngine 0 = 1 / 6
   \<and> probWeights (dataFromJson (JObject [(''probWeights'', JArray [JReal 1])]) freshEngine) 1
       = 1 / 6"
  by (simp add: dataFromJson_present freshEngine_def constructed_closed NUM_BUFFERS_def)

subsection \<open>The control snapshot\<close>

text \<open>
  C9, as amended. \<^verbatim>\<open>updateControls\<close> computes the six values from the manual
  set-points, with a modulation input for three of them only. The delay time is the
  set-point clamped to \<open>[0, 1]\<close>; the spread, the shape and the feedback are the
  set-point plus a tenth of the modulation voltage, clamped to \<open>[0, 1]\<close>, \<open>[0, 1]\<close> and
  \<open>[0, 0.95]\<close>; the mix and the chaos, for set-points within their configured range
  \<open>[0, 1]\<close>, are the set-point clamped to \<open>[0, 1]\<close>. All six then lie in their ranges.
\<close>

theorem updateControls_snapshot:
  assumes "0 \<le> potMix p" and "potMix p \<le> 1" and "0 \<le> potChaos p" and "potChaos p \<le> 1"
  shows "baseDelayTime (updateControls p s) = clamp (potTime p) 0 1
   \<and> spreadAmount (updateControls p s) = clamp (potSpread p + cvSpreadInput p / 10) 0 1
   \<and> probabilityShape (updateControls p s) = clamp (potProb p + cvProbInput p / 10) 0 1
   \<and> globalFeedback (updateControls p s) = clamp (potFeedback p + cvFeedbackInput p / 10) 0 (95 / 100)
   \<and> dryWetMix (updateControls p s) = clamp (potMix p) 0 1
   \<and> chaosAmount (updateControls p s) = clamp (potChaos p) 0 1
   \<and> 0 \<le> baseDelayTime (updateControls p s) \<and> baseDelayTime (updateControls p s) \<le> 1
   \<and> 0 \<le> spreadAmount (updateControls p s) \<and> spreadAmount (updateControls p s) \<le> 1
   \<and> 0 \<le> probabilityShape (updateControls p s) \<and> probabilityShape (updateControls p s) \<le> 1
   \<and> 0 \<le> globalFeedback (updateControls p s) \<and> globalFeedback (updateControls p s) \<le> 95 / 100
   \<and> 0 \<le> dryWetMix (updateControls p s) \<and> dryWetMix (updateControls p s) \<le> 1
   \<and> 0 \<le> chaosAmount (updateControls p s) \<and> chaosAmount (updateControls p s) \<le> 1"
  using assms clamp_bounds [of 0 "95 / 100" "potFeedback p + cvFeedbackInput p / 10"]
  by (simp add: updateControls_def Let_def clamp_bounds) (simp add: clamp_def)

theorem updateControls_snapshot_witness:
  "0 \<le> potMix modulatedPorts \<and> potMix modulatedPorts \<le> 1
   \<and> 0 \<le> potChaos modulatedPorts \<and> potChaos modulatedPorts \<le> 1
   \<and> baseDelayTime (updateControls modulatedPorts freshEngine) = 1 / 4
   \<and> spreadAmount (updateControls modulatedPorts freshEngine) = 1
   \<and> probabilityShape (updateControls modulatedPorts freshEngine) = 1
   \<and> globalFeedback (updateControls modulatedPorts freshEngine) = 4 / 5
   \<and> dryWetMix (updateControls modulatedPorts freshEngine) = 1 / 2
   \<and> chaosAmount (updateControls modulatedPorts freshEngine) = 1 / 10"
proof -
  have h: "0 \<le> potMix modulatedPorts" "potMix modulatedPorts \<le> 1"
    "0 \<le> potChaos modulatedPorts" "potChaos modulatedPorts \<le> 1"
    by (simp_all add: modulatedPorts_def scenarioPorts_def)
  from updateControls_snapshot [OF h, of freshEngine] h show ?thesis
    by (simp add: modulatedPorts_def scenarioPorts_def clamp_def)
qed

text \<open>
  The delay time, the mix and the chaos are not a set-point plus a modulation voltage.
  With every set-point at its default and 5 V on each of the three modulation inputs,
  the delay time stays 0.25, the mix 0.5 and the chaos 0.1, where the set-point plus a
  tenth of any of the three voltages, clamped, is 0.75, 1 and 0.6.
\<close>

theorem updateControls_modulation_counterexample:
  "baseDelayTime (updateControls modulatedPorts freshEngine) = 1 / 4
   \<and> clamp (potTime modulatedPorts + cvProbInput modulatedPorts / 10) 0 1 = 3 / 4
   \<and> clamp (potTime modulatedPorts + cvSpreadInput modulatedPorts / 10) 0 1 = 3 / 4
   \<and> clamp (potTime modulatedPorts + cvFeedbackInput modulatedPorts / 10) 0 1 = 3 / 4
   \<and> dryWetMix (updateControls modulatedPorts freshEngine) = 1 / 2
   \<and> clamp (potMix modulatedPorts + cvProbInput modulatedPorts / 10) 0 1 = 1
   \<and> clamp (potMix modulatedPorts + cvSpreadInput modulatedPorts / 10) 0 1 = 1
   \<and> clamp (potMix modulatedPorts + cvFeedbackInput modulatedPorts / 10) 0 1 = 1
   \<and> chaosAmount (updateControls modulatedPorts freshEngine) = 1 / 10
   \<and> clamp (potChaos modulatedPorts + cvProbInput modulatedPorts / 10) 0 1 = 3 / 5
   \<and> clamp (potChaos modulatedPorts + cvSpreadInput modulatedPorts / 10) 0 1 = 3 / 5
   \<and> clamp (potChaos modulatedPorts + cvFeedbackInput modulatedPorts / 10) 0 1 = 3 / 5"
  by (simp add: updateControls_def Let_def modulatedPorts_def scenarioPorts_def clamp_def)

subsection \<open>The frame of an idle step\<close>

text \<open>
  C10, as amended. On a call of \<^verbatim>\<open>process\<close> that is neither a control tick nor a
  firing of the collapse trigger, the weight vectors (current, target, velocity), the
  delay times, the read indices and the six control values are unchanged; the call
  modifies only the buffers, the entanglement, the collapse indicator, the lights, the
  output, the write index and, besides these, the divider's counter (incremented) and the
  trigger's state.
\<close>

theorem process_idle_frame:
  assumes "controlDivider s + 1 < 64"
    and "\<not> fst (schmittProcess (collapseTrigger s) (collapseTriggerInput p) (1 / 10) 2)"
  shows "probWeights (process p s) = probWeights s
       \<and> targetWeights (process p s) = targetWeights s
       \<and> weightVelocity (process p s) = weightVelocity s
       \<and> delayTimes (process p s) = delayTimes s
       \<and> readIndices (process p s) = readIndices s
       \<and> baseDelayTime (process p s) = baseDelayTime s
       \<and> spreadAmount (process p s) = spreadAmount s
       \<and> probabilityShape (process p s) = probabilityShape s
       \<and> globalFeedback (process p s) = globalFeedback s
       \<and> dryWetMix (process p s) = dryWetMix s
       \<and> chaosAmount (process p s) = chaosAmount s
       \<and> process p s =
           s\<lparr>delayBuffers := delayBuffers (process p s),
             entanglement := entanglement (process p s),
             collapseLight := collapseLight (process p s),
             lights := lights (process p s),
             audioOutput := audioOutput (process p s),
             writeIndex := writeIndex (process p s),
             controlDivider := controlDivider s + 1,
             collapseTrigger :=
               snd (schmittProcess (collapseTrigger s) (collapseTriggerInput p) (1 / 10) 2)\<rparr>"
proof -
  note keep = audioStep_keeps [of p "controlStep p s", folded process_def]
  show ?thesis
    by (simp add: keep controlStep_idle [OF assms])
qed

theorem process_idle_frame_witness:
  "controlDivider freshEngine + 1 < 64
   \<and> \<not> fst (schmittProcess (collapseTrigger freshEngine)
              (collapseTriggerInput scenarioPorts) (1 / 10) 2)
   \<and> probWeights (process scenarioPorts freshEngine) = probWeights freshEngine
   \<and> targetWeights (process scenarioPorts freshEngine) = targetWeights freshEngine
   \<and> weightVelocity (process scenarioPorts freshEngine) = weightVelocity freshEngine
   \<and> delayTimes (process scenarioPorts freshEngine) = delayTimes freshEngine
   \<and> readIndices (process scenarioPorts freshEngine) = readIndices freshEngine
   \<and> dryWetMix (process scenarioPorts freshEngine) = 1 / 2
   \<and> controlDivider (process scenarioPorts freshEngine) = 1"
proof -
  have h: "controlDivider freshEngine + 1 < 64"
    "\<not> fst (schmittProcess (collapseTrigger freshEngine)
              (collapseTriggerInput scenarioPorts) (1 / 10) 2)"
    by (simp_all add: freshEngine_def constructed_closed schmittProcess_def)
  have "controlDivider (process scenarioPorts freshEngine)
          = controlDivider (controlStep scenarioPorts freshEngine)"
    by (simp add: process_def audioStep_keeps)
  also have "\<dots> = 1"
    by (simp add: controlStep_idle [OF h]) (simp add: freshEngine_def constructed_closed)
  finally have c: "controlDivider (process scenarioPorts freshEngine) = 1" .
  from process_idle_frame [OF h] h c show ?thesis
    by (simp add: freshEngine_def constructed_closed)
qed

text \<open>
  The first call on a fresh engine, with the trigger input at 0, is neither a control
  tick nor a collapse. It changes the divider's counter (from 0 to 1) and the state of the
  trigger (from high to low); the claim lists neither.
\<close>

theorem process_idle_counterexample:
  "controlDivider freshEngine + 1 < 64
   \<and> \<not> fst (schmittProcess (collapseTrigger freshEngine)
              (collapseTriggerInput scenarioPorts) (1 / 10) 2)
   \<and> controlDivider (process scenarioPorts freshEngine) \<noteq> controlDivider freshEngine
   \<and> collapseTrigger (process scenarioPorts freshEngine) \<noteq> collapseTrigger freshEngine"
proof -
  have h: "controlDivider freshEngine + 1 < 64"
    "\<not> fst (schmittProcess (collapseTrigger freshEngine)
              (collapseTriggerInput scenarioPorts) (1 / 10) 2)"
    by (simp_all add: freshEngine_def constructed_closed schmittProcess_def)
  have "controlDivider (process scenarioPorts freshEngine)
          = controlDivider (controlStep scenarioPorts freshEngine)"
    by (simp add: process_def audioStep_keeps)
  also have "\<dots> = controlDivider freshEngine + 1"
    by (simp add: controlStep_idle [OF h])
  finally have c: "controlDivider (process scenarioPorts freshEngine)
                     \<noteq> controlDivider freshEngine"
    by simp
  have "collapseTrigger (process scenarioPorts freshEngine)
          = collapseTrigger (controlStep scenarioPorts freshEngine)"
    by (simp add: process_def audioStep_keeps)
  also have "\<dots> = snd (schmittProcess (collapseTrigger freshEngine)
                          (collapseTriggerInput scenarioPorts) (1 / 10) 2)"
    by (simp add: controlStep_idle [OF h])
  also have "\<dots> \<noteq> collapseTrigger freshEngine"
    by (simp add: freshEngine_def constructed_closed schmittProcess_def scenarioPorts_def)
  finally have t: "collapseTrigger (process scenarioPorts freshEngine)
                     \<noteq> collapseTrigger freshEngine" .
  from h c t show ?thesis by blast
qed

end
